theory Spec2Isabelle
  imports Complex_Main
begin

unbundle bit_operations_syntax

section \<open>The WebGL scene module (Files/js/app.js)\<close>

text \<open>
  The module keeps all of its state in the properties of one object (\<open>inaccessible\<close>,
  reached through \<open>this\<close>) and drives a WebGL context, a matrix library (\<open>mat4\<close>,
  \<open>mat3\<close>, \<open>vec4\<close>), a \<open>TrackballRotator\<close> and the DOM. The embedding passes
  that object explicitly as a record, records every call made on the WebGL context in a log,
  and takes the matrix library and the rotator as a parameter, since their code is not part
  of the module.

  A finite JavaScript number is kept as the real that it denotes. The zoom factor is the
  one number of the state on which the module itself computes with a rounding operator, and
  there the embedding rounds as IEEE 754 binary64 does (\<open>jsAdd\<close>, \<open>jsDiv\<close> below);
  the angles that the module hands to the matrix library are kept exact. The frame counter,
  which only ever holds integers, is an integer, and does not stop at \<open>2^53\<close>.
\<close>

subsection \<open>Values, errors and results\<close>

type_synonym ref = nat

datatype jserror = TypeError

text \<open>
  A procedure of the module either completes and leaves a new state (\<open>Inr\<close>) or throws
  (\<open>Inl\<close>). \<open>andThen\<close> is sequencing: a throw skips the rest. The module catches
  nothing, so a throw ends the event handler in which it happens; the embedding does not
  follow the state beyond it.
\<close>

definition andThen :: "jserror + 'a \<Rightarrow> ('a \<Rightarrow> jserror + 'b) \<Rightarrow> jserror + 'b" where
  "andThen r f = (case r of Inl e \<Rightarrow> Inl e | Inr x \<Rightarrow> f x)"

text \<open>A property value of a uniform table: a number or an array of numbers.\<close>

datatype uval = Undefined | Num real | Arr "real list"

datatype axis = X | Y | Z

datatype placement = Translate | Scale

subsection \<open>The external libraries\<close>

text \<open>
  \<open>'m\<close> is the contents of a 4x4 matrix object, \<open>'n\<close> of a 3x3 one, \<open>'r\<close> the state
  of the trackball rotator. Each \<open>mat4\<close> operation of the source is called with the same
  object as output and input (\<open>mat4.scale(this.modelview, this.modelview, v)\<close>); the
  parameter gives the new contents from the old. \<open>mat3.normalFromMat4\<close> gets the old
  contents of its output too, which it keeps when the matrix cannot be inverted.

  Two things are assumed of the rotator: \<open>getViewMatrix\<close> returns a new matrix object on
  every call, and \<open>setView\<close> changes the state of the rotator and does nothing else (it
  does not call the callback that redraws the scene).
\<close>

record ('m, 'n, 'r) extlib =
  mat4_perspective :: "real \<Rightarrow> real \<Rightarrow> real \<Rightarrow> real \<Rightarrow> 'm"
  mat4_scale :: "'m \<Rightarrow> real list \<Rightarrow> 'm"
  mat4_translate :: "'m \<Rightarrow> real list \<Rightarrow> 'm"
  mat4_rotate :: "'m \<Rightarrow> real \<Rightarrow> real list \<Rightarrow> 'm"
  mat4_rotateX :: "'m \<Rightarrow> real \<Rightarrow> 'm"
  mat4_rotateY :: "'m \<Rightarrow> real \<Rightarrow> 'm"
  mat4_rotateZ :: "'m \<Rightarrow> real \<Rightarrow> 'm"
  mat3_normalFromMat4 :: "'n \<Rightarrow> 'm \<Rightarrow> 'n"
  vec4_transformMat4 :: "real list \<Rightarrow> 'm \<Rightarrow> real list"
  mat4_create :: 'm
  mat3_create :: 'n
  getViewMatrix :: "'r \<Rightarrow> 'm"
  setView :: "real \<Rightarrow> real list \<Rightarrow> 'r \<Rightarrow> 'r"

subsection \<open>The WebGL calls\<close>

datatype drawMode = LINE_LOOP | TRIANGLES

datatype bufferTarget = ARRAY_BUFFER | ELEMENT_ARRAY_BUFFER

datatype attribute = A_coords | A_normal | A_texCoords

text \<open>
  Uniform locations: \<open>this.u_modelview\<close>, ..., \<open>this.u_material[p]\<close> and
  \<open>this.u_lights[i][p]\<close>.
\<close>

datatype uniform =
    U_modelview | U_projection | U_normalMatrix | U_texture | U_useTexture
  | U_material string
  | U_lights nat string

datatype ('m, 'n) glcall =
    ClearColor "real list"
  | Clear
  | UniformMatrix4fv uniform 'm
  | UniformMatrix3fv uniform 'n
  | Uniform1i uniform uval
  | Uniform1f uniform uval
  | Uniform3f uniform real real real
  | Uniform4f uniform real real real real
  | Uniform4fv uniform "real list"
  | BindBuffer bufferTarget nat
  | VertexAttribPointer attribute nat
  | EnableVertexAttribArray attribute
  | DisableVertexAttribArray attribute
  | DrawElements drawMode nat
  | CreateTexture
  | BindTexture
  | TexImage2D "int list"

subsection \<open>Scene data\<close>

text \<open>A shape template, as \<open>assembleShapeTemplate\<close> builds it.\<close>

record template =
  t_shapeType :: string
  coordsBuffer :: nat
  normalBuffer :: nat
  texCoordsBuffer :: "nat option"
  indexBuffer :: nat
  count :: nat
  isAnimated :: bool
  t_elementId :: string

text \<open>An entry of \<open>sceneObjectsData\<close>.\<close>

record shape =
  shapeType :: string
  shapeColor :: "real list"
  isWireFrame :: bool
  texture :: "string option"
  specularColor :: "real list option"
  specularExponent :: "real option"
  translate :: "real list"
  scale :: "real list"
  rotate :: "(axis \<times> real) list"

text \<open>
  An entry of \<open>lightSourceData\<close>. The uniform tables are walked with \<open>for ... in\<close>,
  so they are kept as association lists in the order the properties were written.
\<close>

record light =
  lightText :: string
  l_shapeType :: "string option"
  l_shapeColor :: "real list option"
  l_texture :: "string option"
  l_materialUniforms :: "(string \<times> uval) list option"
  lightsUniforms :: "(string \<times> uval) list option"
  l_transformations :: "(placement \<times> real list) list option"
  l_elementId :: string

subsection \<open>The state of the module\<close>

text \<open>
  Matrix objects live in \<open>heap\<close>; \<open>modelview\<close> and the entries of \<open>matrixStack\<close>
  are references to them, so that a mutation of the current matrix through one reference
  is seen through every other reference to the same object and through no other.
  \<open>modelview = None\<close> is \<open>undefined\<close>. \<open>matrixStack\<close> is a JavaScript array used
  with \<open>push\<close> and \<open>pop\<close>: its top is its last element.

  \<open>pendingFrames\<close> counts the callbacks handed to \<open>window.requestAnimationFrame\<close>
  that have not run yet, \<open>alerts\<close> lists the messages shown with \<open>window.alert\<close>, and
  \<open>checked\<close> is the \<open>checked\<close> property of the checkbox with a given element id.
\<close>

record ('m, 'n, 'r) ctx =
  heap :: "'m list"
  modelview :: "ref option"
  matrixStack :: "ref list"
  projection :: 'm
  normalMatrix :: 'n
  templates :: "(string \<times> template) list"
  lightSourceData :: "light list"
  sceneObjectsData :: "shape list"
  debugSceneObjectsData :: "shape list"
  isSceneAnimated :: bool
  frameNumber :: int
  sceneScale :: real
  rotator :: 'r
  glLog :: "('m, 'n) glcall list"
  pendingFrames :: nat
  alerts :: "string list"
  checked :: "string \<Rightarrow> bool"

subsection \<open>Utility functions: the matrix stack\<close>

text \<open>
  \<open>pushMatrix\<close>: \<open>this.matrixStack.push(mat4.clone(this.modelview))\<close>. The clone is a
  new object with the contents of the current one; cloning \<open>undefined\<close> throws.
\<close>

definition pushMatrix :: "('m, 'n, 'r) ctx \<Rightarrow> jserror + ('m, 'n, 'r) ctx" where
  "pushMatrix c =
     (case modelview c of
        None \<Rightarrow> Inl TypeError
      | Some a \<Rightarrow>
          Inr (c\<lparr>heap := heap c @ [heap c ! a],
                 matrixStack := matrixStack c @ [length (heap c)]\<rparr>))"

text \<open>
  \<open>popMatrix\<close>: \<open>this.modelview = this.matrixStack.pop()\<close>. \<open>Array.prototype.pop\<close>
  on an empty array returns \<open>undefined\<close> and leaves the array empty; it does not throw.
\<close>

definition popMatrix :: "('m, 'n, 'r) ctx \<Rightarrow> jserror + ('m, 'n, 'r) ctx" where
  "popMatrix c =
     Inr (c\<lparr>modelview := (if matrixStack c = [] then None else Some (last (matrixStack c))),
            matrixStack := butlast (matrixStack c)\<rparr>)"

text \<open>
  A call \<open>mat4.f(this.modelview, this.modelview, ...)\<close>: the object the current matrix
  refers to gets new contents. On \<open>undefined\<close> the library throws when it reads the
  first component.
\<close>

definition mutateModelview ::
  "('m \<Rightarrow> 'm) \<Rightarrow> ('m, 'n, 'r) ctx \<Rightarrow> jserror + ('m, 'n, 'r) ctx" where
  "mutateModelview f c =
     (case modelview c of
        None \<Rightarrow> Inl TypeError
      | Some a \<Rightarrow> Inr (c\<lparr>heap := (heap c)[a := f (heap c ! a)]\<rparr>))"

text \<open>The contents of the current model-view matrix, if there is one.\<close>

definition current :: "('m, 'n, 'r) ctx \<Rightarrow> 'm option" where
  "current c = (case modelview c of None \<Rightarrow> None | Some a \<Rightarrow> Some (heap c ! a))"

text \<open>
  Sequences of stack operations, to state properties of \<open>pushMatrix\<close> and
  \<open>popMatrix\<close> over whole runs: a run stops at the first throw.
\<close>

datatype 'm stackOp = Push | Pop | Mutate "'m \<Rightarrow> 'm"

fun runOp :: "'m stackOp \<Rightarrow> ('m, 'n, 'r) ctx \<Rightarrow> jserror + ('m, 'n, 'r) ctx" where
  "runOp Push c = pushMatrix c"
| "runOp Pop c = popMatrix c"
| "runOp (Mutate f) c = mutateModelview f c"

fun runOps :: "'m stackOp list \<Rightarrow> ('m, 'n, 'r) ctx \<Rightarrow> jserror + ('m, 'n, 'r) ctx" where
  "runOps [] c = Inr c"
| "runOps (x # xs) c = andThen (runOp x c) (runOps xs)"

text \<open>One push followed by the in-place mutations \<open>fs\<close> of the current matrix.\<close>

definition pushThenMutate :: "('m \<Rightarrow> 'm) list \<Rightarrow> 'm stackOp list" where
  "pushThenMutate fs = Push # map Mutate fs"

subsection \<open>Enums\<close>

definition DEBUG :: bool where
  "DEBUG = False"

definition CAMERA_FOV :: real where "CAMERA_FOV = pi / 6"
definition ASPECT_RATIO :: real where "ASPECT_RATIO = 4 / 3"
definition FRUSTRUM_NEAR_PLANE :: real where "FRUSTRUM_NEAR_PLANE = 1"
definition FRUSTRUM_FAR_PLANE :: real where "FRUSTRUM_FAR_PLANE = 100"
definition DEBUG_ZOOM_DEGREE :: real where "DEBUG_ZOOM_DEGREE = 7"

definition START_BUTTON_ERROR :: string where
  "START_BUTTON_ERROR = ''Animation is already running.''"
definition STOP_BUTTON_ERROR :: string where
  "STOP_BUTTON_ERROR = ''Animation is not currently running.''"

definition WHITE :: "real list" where "WHITE = [1, 1, 1, 1]"
definition BLACK :: "real list" where "BLACK = [0, 0, 0, 1]"
definition GRAY :: "real list" where "GRAY = [0.1, 0.1, 0.1, 1]"
definition CHARCOAL :: "real list" where "CHARCOAL = [0.35, 0.35, 0.35, 1]"
definition LIGHTGRAY :: "real list" where "LIGHTGRAY = [0.5, 0.5, 0.5, 1]"
definition COPPER :: "real list" where "COPPER = [0.5, 0.3, 0.1, 1]"
definition BROWN :: "real list" where "BROWN = [0.5, 0.3, 0.1, 1]"
definition GREEN :: "real list" where "GREEN = [0, 0.8, 0, 1]"
definition YELLOW :: "real list" where "YELLOW = [0.5, 0.5, 0, 1]"
definition GOLD :: "real list" where "GOLD = [0.5, 0.5, 0.2, 1]"

definition DefaultUniforms_MATERIAL :: "(string \<times> uval) list" where
  "DefaultUniforms_MATERIAL =
     [(''diffuseColor'', Arr BLACK),
      (''specularColor'', Arr GRAY),
      (''emissiveColor'', Arr BLACK),
      (''specularExponent'', Num 16)]"

definition DefaultUniforms_LIGHTS :: "(string \<times> uval) list" where
  "DefaultUniforms_LIGHTS =
     [(''enabled'', Num 1),
      (''position'', Arr [0, 0, 1, 0]),
      (''color'', Arr WHITE),
      (''attenuation'', Num 0)]"

definition SUN :: string where "SUN = ''textures/sun.jpg''"
definition JUPITER :: string where "JUPITER = ''textures/jupiter.jpg''"

subsection \<open>JavaScript helpers\<close>

text \<open>\<open>obj[prop]\<close>: a missing property reads as \<open>undefined\<close>.\<close>

definition getProp :: "(string \<times> uval) list \<Rightarrow> string \<Rightarrow> uval" where
  "getProp obj p = (case map_of obj p of None \<Rightarrow> Undefined | Some v \<Rightarrow> v)"

text \<open>\<open>obj[prop] = v\<close>: an existing property keeps its place, a new one goes last.\<close>

fun setProp :: "(string \<times> uval) list \<Rightarrow> string \<Rightarrow> uval \<Rightarrow> (string \<times> uval) list" where
  "setProp [] p v = [(p, v)]"
| "setProp ((q, w) # obj) p v = (if q = p then (p, v) # obj else (q, w) # setProp obj p v)"

definition jsTruncate :: "real \<Rightarrow> int" where
  "jsTruncate x = (if 0 \<le> x then \<lfloor>x\<rfloor> else \<lceil>x\<rceil>)"

text \<open>
  The conversion of a value to a 32-bit integer that the bitwise operators apply:
  \<open>undefined\<close> and arrays that are not a single number give 0.
\<close>

fun toInt32 :: "uval \<Rightarrow> int" where
  "toInt32 (Num x) = signed_take_bit 31 (jsTruncate x)"
| "toInt32 (Arr [x]) = signed_take_bit 31 (jsTruncate x)"
| "toInt32 _ = 0"

text \<open>\<open>v ^ 1\<close>.\<close>

definition xor1 :: "uval \<Rightarrow> uval" where
  "xor1 v = Num (of_int (signed_take_bit 31 (toInt32 v XOR 1)))"

text \<open>The conversion of a number to an element of a \<open>Uint8Array\<close>.\<close>

definition toUint8 :: "real \<Rightarrow> int" where
  "toUint8 x = jsTruncate x mod 256"

text \<open>
  The arithmetic operators of JavaScript give the IEEE 754 binary64 value nearest to the
  exact result, a tie going to the value whose significand is even. \<open>binary64\<close> is that
  rounding: a value of magnitude in \<open>[2^e, 2^(e+1))\<close> is rounded to a multiple of
  \<open>2^(e-52)\<close>, and to a multiple of \<open>2^-1074\<close> when it is below \<open>2^-1022\<close>.
  \<open>NaN\<close>, the infinities and the sign of zero are not represented: beyond the largest
  finite number, where the operators give an infinity, \<open>binary64\<close> is not what JavaScript
  does.
\<close>

definition pow2 :: "int \<Rightarrow> real" where
  "pow2 e = (if 0 \<le> e then 2 ^ nat e else 1 / 2 ^ nat (- e))"

definition roundTiesToEven :: "real \<Rightarrow> int" where
  "roundTiesToEven q =
     (let n = \<lfloor>q\<rfloor>; r = q - of_int n
      in if r < 1 / 2 then n else if 1 / 2 < r then n + 1 else if even n then n else n + 1)"

text \<open>
  The exponent of the binade of \<open>x\<close>: the largest \<open>e\<close> from -1022 to 1023 with
  \<open>2^e\<close> at most the magnitude of \<open>x\<close>, and -1022 when there is none, found by going
  down from 1023.
\<close>

function binadeFrom :: "real \<Rightarrow> int \<Rightarrow> int" where
  "binadeFrom x e = (if e \<le> - 1022 \<or> pow2 e \<le> x then e else binadeFrom x (e - 1))"
  by pat_completeness auto
termination
  by (relation "measure (\<lambda>(x, e). nat (e + 1022))") auto

declare binadeFrom.simps [simp del]

definition exponent :: "real \<Rightarrow> int" where
  "exponent x = binadeFrom \<bar>x\<bar> 1023"

definition binary64 :: "real \<Rightarrow> real" where
  "binary64 x =
     (if x = 0 then 0
      else (let u = pow2 (exponent x - 52) in of_int (roundTiesToEven (x / u)) * u))"

text \<open>\<open>x + y\<close> and \<open>x / y\<close> on numbers, \<open>y\<close> not zero.\<close>

definition jsAdd :: "real \<Rightarrow> real \<Rightarrow> real" where
  "jsAdd x y = binary64 (x + y)"

definition jsDiv :: "real \<Rightarrow> real \<Rightarrow> real" where
  "jsDiv x y = binary64 (x / y)"

text \<open>Running a list of steps in order, and a loop body over the elements of a list.\<close>

fun seq :: "('s \<Rightarrow> jserror + 's) list \<Rightarrow> 's \<Rightarrow> jserror + 's" where
  "seq [] c = Inr c"
| "seq (f # fs) c = andThen (f c) (seq fs)"

fun forEach :: "('a \<Rightarrow> 's \<Rightarrow> jserror + 's) \<Rightarrow> 'a list \<Rightarrow> 's \<Rightarrow> jserror + 's" where
  "forEach body [] c = Inr c"
| "forEach body (x # xs) c = andThen (body x c) (forEach body xs)"

definition skip :: "'s \<Rightarrow> jserror + 's" where
  "skip c = Inr c"

subsection \<open>Calls on the WebGL context\<close>

definition gl :: "('m, 'n) glcall \<Rightarrow> ('m, 'n, 'r) ctx \<Rightarrow> jserror + ('m, 'n, 'r) ctx" where
  "gl call c = Inr (c\<lparr>glLog := glLog c @ [call]\<rparr>)"

text \<open>
  \<open>gl.uniform3f(loc, ...v)\<close> and \<open>gl.uniform4f(loc, ...v)\<close>: the array is spread
  over the arguments. The context reads three (four) numbers after the location, ignores
  further arguments and throws when there are too few.
\<close>

definition uniform3f ::
  "uniform \<Rightarrow> real list \<Rightarrow> ('m, 'n, 'r) ctx \<Rightarrow> jserror + ('m, 'n, 'r) ctx" where
  "uniform3f loc v c =
     (case v of x # y # z # _ \<Rightarrow> gl (Uniform3f loc x y z) c | _ \<Rightarrow> Inl TypeError)"

definition uniform4f ::
  "uniform \<Rightarrow> real list \<Rightarrow> ('m, 'n, 'r) ctx \<Rightarrow> jserror + ('m, 'n, 'r) ctx" where
  "uniform4f loc v c =
     (case v of x # y # z # w # _ \<Rightarrow> gl (Uniform4f loc x y z w) c | _ \<Rightarrow> Inl TypeError)"

subsection \<open>Handler functions used by a render pass\<close>

text \<open>
  \<open>handleDefinitionOfUniform(paramDataObject, paramProperty, paramCounter = null)\<close>.
  \<open>initGL\<close> fills \<open>this.u_lights[i]\<close> for every index of \<open>lightSourceData\<close>;
  reading a property of \<open>this.u_lights[i]\<close> for another index throws.
\<close>

definition handleDefinitionOfUniform ::
  "(string \<times> uval) list \<Rightarrow> string \<Rightarrow> nat option \<Rightarrow>
     ('m, 'n, 'r) ctx \<Rightarrow> jserror + ('m, 'n, 'r) ctx" where
  "handleDefinitionOfUniform paramDataObject paramProperty paramCounter c =
     (let v = getProp paramDataObject paramProperty in
      case paramCounter of
        Some i \<Rightarrow>
          if \<not> i < length (lightSourceData c) then Inl TypeError
          else (case v of
             Arr a \<Rightarrow>
               if paramProperty = ''position'' then uniform4f (U_lights i ''position'') a c
               else uniform3f (U_lights i paramProperty) (take 3 a) c
           | _ \<Rightarrow>
               if paramProperty = ''enabled'' then gl (Uniform1i (U_lights i ''enabled'') v) c
               else gl (Uniform1f (U_lights i paramProperty) v) c)
      | None \<Rightarrow>
          (case v of
             Arr a \<Rightarrow>
               if paramProperty = ''diffuseColor''
               then gl (Uniform4fv (U_material ''diffuseColor'') a) c
               else uniform3f (U_material paramProperty) (take (length a - 1) a) c
           | _ \<Rightarrow> gl (Uniform1f (U_material paramProperty) v) c))"

text \<open>
  \<open>handleLightPositioning(paramUniformLocation, paramLightLocation)\<close>: the light's
  position is transformed by the current model-view matrix. Reading a component of
  \<open>undefined\<close> throws; a number has no components.
\<close>

definition handleLightPositioning ::
  "('m, 'n, 'r) extlib \<Rightarrow> uniform \<Rightarrow> uval \<Rightarrow>
     ('m, 'n, 'r) ctx \<Rightarrow> jserror + ('m, 'n, 'r) ctx" where
  "handleLightPositioning L paramUniformLocation paramLightLocation c =
     (case (paramLightLocation, current c) of
        (Undefined, _) \<Rightarrow> Inl TypeError
      | (_, None) \<Rightarrow> Inl TypeError
      | (Arr a, Some m) \<Rightarrow> gl (Uniform4fv paramUniformLocation (vec4_transformMat4 L a m)) c
      | (Num _, Some m) \<Rightarrow> gl (Uniform4fv paramUniformLocation (vec4_transformMat4 L [] m)) c)"

definition handleBufferBinding ::
  "attribute \<Rightarrow> nat \<Rightarrow> nat \<Rightarrow> ('m, 'n, 'r) ctx \<Rightarrow> jserror + ('m, 'n, 'r) ctx" where
  "handleBufferBinding paramLocation paramBuffer paramSize =
     seq [gl (BindBuffer ARRAY_BUFFER paramBuffer),
          gl (VertexAttribPointer paramLocation paramSize),
          gl (EnableVertexAttribArray paramLocation)]"

definition convertColorToUint8Array :: "real list \<Rightarrow> int list" where
  "convertColorToUint8Array paramColorArray = map (\<lambda>x. toUint8 (x * 255)) paramColorArray"

text \<open>
  \<open>handleTextureLoading(paramAddress, paramColorTexture)\<close>: the calls made before the
  function returns. The \<open>onload\<close> callback of the image runs later, outside every render
  pass, and issues no draw call; it is not part of the embedding.
\<close>

definition handleTextureLoading ::
  "string \<Rightarrow> real list \<Rightarrow> ('m, 'n, 'r) ctx \<Rightarrow> jserror + ('m, 'n, 'r) ctx" where
  "handleTextureLoading paramAddress paramColorTexture =
     seq [gl CreateTexture,
          gl BindTexture,
          gl (TexImage2D (convertColorToUint8Array paramColorTexture))]"

text \<open>
  \<open>handleShapeTemplateRendering(paramConfig)\<close>. \<open>paramConfig\<close> is an entry of
  \<open>sceneObjectsData\<close> or of \<open>lightSourceData\<close>; the function reads its properties
  \<open>shapeType\<close>, \<open>isWireFrame\<close>, \<open>texture\<close> and \<open>shapeColor\<close>, which are the
  arguments here. A shape type without a template makes \<open>model\<close> undefined, and the first
  read of one of its properties throws.
\<close>

definition handleShapeTemplateRendering ::
  "('m, 'n, 'r) extlib \<Rightarrow> string \<Rightarrow> bool \<Rightarrow> string option \<Rightarrow> real list \<Rightarrow>
     ('m, 'n, 'r) ctx \<Rightarrow> jserror + ('m, 'n, 'r) ctx" where
  "handleShapeTemplateRendering L cfgShapeType cfgIsWireFrame cfgTexture cfgShapeColor c =
     (case map_of (templates c) cfgShapeType of
        None \<Rightarrow> Inl TypeError
      | Some model \<Rightarrow>
          (let primitive = (if cfgIsWireFrame then LINE_LOOP else TRIANGLES) in
           seq [handleBufferBinding A_coords (coordsBuffer model) 3,
                handleBufferBinding A_normal (normalBuffer model) 3,
                (case texCoordsBuffer model of
                   Some b \<Rightarrow> handleBufferBinding A_texCoords b 2
                 | None \<Rightarrow> gl (DisableVertexAttribArray A_texCoords)),
                (case cfgTexture of
                   Some address \<Rightarrow>
                     seq [gl (Uniform1i U_useTexture (Num 1)),
                          handleTextureLoading address WHITE]
                 | None \<Rightarrow>
                     seq [gl (Uniform1i U_useTexture (Num 0)),
                          gl (Uniform4fv (U_material ''diffuseColor'') cfgShapeColor)]),
                (\<lambda>c. case current c of
                        None \<Rightarrow> Inl TypeError
                      | Some m \<Rightarrow> gl (UniformMatrix4fv U_modelview m) c),
                (\<lambda>c. case current c of
                        None \<Rightarrow> Inl TypeError
                      | Some m \<Rightarrow>
                          Inr (c\<lparr>normalMatrix := mat3_normalFromMat4 L (normalMatrix c) m\<rparr>)),
                (\<lambda>c. gl (UniformMatrix3fv U_normalMatrix (normalMatrix c)) c),
                gl (BindBuffer ELEMENT_ARRAY_BUFFER (indexBuffer model)),
                gl (DrawElements primitive (count model)),
                gl (DisableVertexAttribArray A_coords),
                gl (DisableVertexAttribArray A_normal),
                gl (DisableVertexAttribArray A_texCoords)] c))"

subsection \<open>Assembly functions\<close>

text \<open>\<open>mat4[key]\<close> for the keys of a light's \<open>transformations\<close>.\<close>

fun mat4_placement :: "('m, 'n, 'r) extlib \<Rightarrow> placement \<Rightarrow> 'm \<Rightarrow> real list \<Rightarrow> 'm" where
  "mat4_placement L Translate = mat4_translate L"
| "mat4_placement L Scale = mat4_scale L"

text \<open>\<open>mat4[`rotate${key.toUpperCase()}`]\<close> for the keys of a shape's \<open>rotate\<close>.\<close>

fun mat4_rotateAxis :: "('m, 'n, 'r) extlib \<Rightarrow> axis \<Rightarrow> 'm \<Rightarrow> real \<Rightarrow> 'm" where
  "mat4_rotateAxis L X = mat4_rotateX L"
| "mat4_rotateAxis L Y = mat4_rotateY L"
| "mat4_rotateAxis L Z = mat4_rotateZ L"

text \<open>
  The body of the loop over a light's \<open>transformations\<close>:
  \<open>mat4[key](this.modelview, this.modelview, light.transformations[key])\<close>.
\<close>

fun placeLight ::
  "('m, 'n, 'r) extlib \<Rightarrow> placement \<times> real list \<Rightarrow>
     ('m, 'n, 'r) ctx \<Rightarrow> jserror + ('m, 'n, 'r) ctx" where
  "placeLight L (key, v) c = mutateModelview (\<lambda>m. mat4_placement L key m v) c"

text \<open>
  The orbit of a shape around the sun:
  \<open>mat4.rotate(this.modelview, this.modelview, (-this.frameNumber) / 180 * Math.PI,
  [0, 1, 0])\<close>.
\<close>

definition orbitShape ::
  "('m, 'n, 'r) extlib \<Rightarrow> ('m, 'n, 'r) ctx \<Rightarrow> jserror + ('m, 'n, 'r) ctx" where
  "orbitShape L c =
     mutateModelview (\<lambda>m. mat4_rotate L m (of_int (- frameNumber c) / 180 * pi) [0, 1, 0]) c"

text \<open>
  The body of the loop over a shape's \<open>rotate\<close>:
  \<open>mat4[matrixFunctionName](this.modelview, this.modelview,
  (this.frameNumber * value) / 180 * Math.PI)\<close>.
\<close>

fun rotateShape ::
  "('m, 'n, 'r) extlib \<Rightarrow> axis \<times> real \<Rightarrow>
     ('m, 'n, 'r) ctx \<Rightarrow> jserror + ('m, 'n, 'r) ctx" where
  "rotateShape L (key, v) c =
     mutateModelview (\<lambda>m. mat4_rotateAxis L key m (of_int (frameNumber c) * v / 180 * pi)) c"

text \<open>
  The body of the loop of \<open>assembleLights\<close>, for the light \<open>light\<close> at index \<open>i\<close>.
\<close>

definition assembleLight ::
  "('m, 'n, 'r) extlib \<Rightarrow> nat \<Rightarrow> light \<Rightarrow> ('m, 'n, 'r) ctx \<Rightarrow> jserror + ('m, 'n, 'r) ctx" where
  "assembleLight L i light =
     seq [pushMatrix,
          (case lightsUniforms light of
             None \<Rightarrow> skip
           | Some lu \<Rightarrow>
               forEach (\<lambda>key. handleDefinitionOfUniform lu key (Some i)) (map fst lu)),
          (case l_transformations light of
             None \<Rightarrow> skip
           | Some ts \<Rightarrow> forEach (placeLight L) ts),
          (case l_materialUniforms light of
             None \<Rightarrow> skip
           | Some mu \<Rightarrow>
               forEach (\<lambda>key. handleDefinitionOfUniform mu key None) (map fst mu)),
          (case (l_shapeType light, l_shapeColor light) of
             (Some st, Some col) \<Rightarrow>
               (case lightsUniforms light of
                  None \<Rightarrow> (\<lambda>c. Inl TypeError)
                | Some lu \<Rightarrow>
                    seq [handleLightPositioning L (U_lights i ''position'')
                           (getProp lu ''position''),
                         handleShapeTemplateRendering L st False (l_texture light) col])
           | _ \<Rightarrow> skip),
          (case l_materialUniforms light of
             None \<Rightarrow> skip
           | Some mu \<Rightarrow>
               forEach (\<lambda>key. handleDefinitionOfUniform DefaultUniforms_MATERIAL key None)
                 (map fst mu)),
          popMatrix]"

text \<open>
  \<open>assembleLights\<close>: the loop over the indices of \<open>this.lightSourceData\<close>. No step of
  the loop changes the array, so the loop runs over the array as it is at the start.
\<close>

definition assembleLights ::
  "('m, 'n, 'r) extlib \<Rightarrow> ('m, 'n, 'r) ctx \<Rightarrow> jserror + ('m, 'n, 'r) ctx" where
  "assembleLights L c =
     forEach (\<lambda>(i, light). assembleLight L i light)
       (zip [0..<length (lightSourceData c)] (lightSourceData c)) c"

text \<open>
  The body of the loop of \<open>assembleScene\<close> for the entry \<open>cur\<close>. A shape type
  without a template throws at \<open>this.templates[current.shapeType].isAnimated\<close>; a hidden
  template skips the entry before anything is pushed.
\<close>

definition assembleShape ::
  "('m, 'n, 'r) extlib \<Rightarrow> shape \<Rightarrow> ('m, 'n, 'r) ctx \<Rightarrow> jserror + ('m, 'n, 'r) ctx" where
  "assembleShape L cur c =
     (case map_of (templates c) (shapeType cur) of
        None \<Rightarrow> Inl TypeError
      | Some model \<Rightarrow>
          if \<not> isAnimated model then Inr c
          else
            seq [pushMatrix,
                 (if \<not> DEBUG then orbitShape L else skip),
                 mutateModelview (\<lambda>m. mat4_translate L m (translate cur)),
                 forEach (rotateShape L) (rotate cur),
                 mutateModelview (\<lambda>m. mat4_scale L m (scale cur)),
                 (case specularColor cur of
                    Some col \<Rightarrow> uniform3f (U_material ''specularColor'') col
                  | None \<Rightarrow> skip),
                 (case specularExponent cur of
                    Some e \<Rightarrow> gl (Uniform1f (U_material ''specularExponent'') (Num e))
                  | None \<Rightarrow> skip),
                 handleShapeTemplateRendering L (shapeType cur) (isWireFrame cur)
                   (texture cur) (shapeColor cur),
                 (case specularColor cur of
                    Some col \<Rightarrow>
                      (case getProp DefaultUniforms_MATERIAL ''specularColor'' of
                         Arr d \<Rightarrow> uniform3f (U_material ''specularColor'') d
                       | _ \<Rightarrow> (\<lambda>c. Inl TypeError))
                  | None \<Rightarrow> skip),
                 (case specularExponent cur of
                    Some e \<Rightarrow>
                      gl (Uniform1f (U_material ''specularExponent'')
                            (getProp DefaultUniforms_MATERIAL ''specularExponent''))
                  | None \<Rightarrow> skip),
                 popMatrix] c)"

definition assembleScene ::
  "('m, 'n, 'r) extlib \<Rightarrow> ('m, 'n, 'r) ctx \<Rightarrow> jserror + ('m, 'n, 'r) ctx" where
  "assembleScene L c =
     forEach (assembleShape L)
       (if DEBUG then debugSceneObjectsData c else sceneObjectsData c) c"

subsection \<open>Main functions\<close>

text \<open>
  The zoom of the scene:
  \<open>mat4.scale(this.modelview, this.modelview,
  [this.sceneScale, this.sceneScale, this.sceneScale])\<close>.
\<close>

definition scaleScene ::
  "('m, 'n, 'r) extlib \<Rightarrow> ('m, 'n, 'r) ctx \<Rightarrow> jserror + ('m, 'n, 'r) ctx" where
  "scaleScene L c =
     mutateModelview (\<lambda>m. mat4_scale L m [sceneScale c, sceneScale c, sceneScale c]) c"

text \<open>
  \<open>render\<close>. The matrix that \<open>this.rotator.getViewMatrix()\<close> returns is a new object,
  which becomes the current model-view matrix and is then scaled in place.
\<close>

definition render ::
  "('m, 'n, 'r) extlib \<Rightarrow> ('m, 'n, 'r) ctx \<Rightarrow> jserror + ('m, 'n, 'r) ctx" where
  "render L =
     seq [gl (ClearColor BLACK),
          gl Clear,
          (\<lambda>c. Inr (c\<lparr>projection := mat4_perspective L CAMERA_FOV ASPECT_RATIO
                                        FRUSTRUM_NEAR_PLANE FRUSTRUM_FAR_PLANE\<rparr>)),
          (\<lambda>c. gl (UniformMatrix4fv U_projection (projection c)) c),
          (\<lambda>c. Inr (c\<lparr>heap := heap c @ [getViewMatrix L (rotator c)],
                         modelview := Some (length (heap c))\<rparr>)),
          (if DEBUG
           then mutateModelview (\<lambda>m. mat4_scale L m
                  [DEBUG_ZOOM_DEGREE, DEBUG_ZOOM_DEGREE, DEBUG_ZOOM_DEGREE])
           else scaleScene L),
          assembleLights L,
          assembleScene L]"

subsection \<open>The frame driver and the other event handlers\<close>

text \<open>
  \<open>handleFrame\<close>: \<open>window.requestAnimationFrame(this.handleFrame.bind(this))\<close>
  leaves one more callback pending.
\<close>

definition handleFrame ::
  "('m, 'n, 'r) extlib \<Rightarrow> ('m, 'n, 'r) ctx \<Rightarrow> jserror + ('m, 'n, 'r) ctx" where
  "handleFrame L c =
     (if isSceneAnimated c
      then seq [(\<lambda>c. Inr (c\<lparr>frameNumber := frameNumber c + 1\<rparr>)),
                render L,
                (\<lambda>c. Inr (c\<lparr>pendingFrames := pendingFrames c + 1\<rparr>))] c
      else Inr c)"

text \<open>
  A scheduled tick: the browser runs one of the pending callbacks, which is
  \<open>handleFrame\<close>. Without a pending callback there is no tick.
\<close>

definition tick ::
  "('m, 'n, 'r) extlib \<Rightarrow> ('m, 'n, 'r) ctx \<Rightarrow> jserror + ('m, 'n, 'r) ctx" where
  "tick L c =
     (if pendingFrames c = 0 then Inr c
      else handleFrame L (c\<lparr>pendingFrames := pendingFrames c - 1\<rparr>))"

definition handleAnimationStart ::
  "('m, 'n, 'r) extlib \<Rightarrow> ('m, 'n, 'r) ctx \<Rightarrow> jserror + ('m, 'n, 'r) ctx" where
  "handleAnimationStart L c =
     (if \<not> isSceneAnimated c
      then handleFrame L (c\<lparr>isSceneAnimated := True\<rparr>)
      else Inr (c\<lparr>alerts := alerts c @ [START_BUTTON_ERROR]\<rparr>))"

definition handleAnimationStop ::
  "('m, 'n, 'r) ctx \<Rightarrow> jserror + ('m, 'n, 'r) ctx" where
  "handleAnimationStop c =
     (if isSceneAnimated c
      then Inr (c\<lparr>isSceneAnimated := False\<rparr>)
      else Inr (c\<lparr>alerts := alerts c @ [STOP_BUTTON_ERROR]\<rparr>))"

text \<open>
  \<open>handleReset\<close>. The loop \<open>for (template in this.templates)\<close> checks the checkbox of
  each template and sets its \<open>isAnimated\<close>; every template has a checkbox, built in
  \<open>init\<close>.
\<close>

definition resetTemplate ::
  "string \<times> template \<Rightarrow> ('m, 'n, 'r) ctx \<Rightarrow> ('m, 'n, 'r) ctx" where
  "resetTemplate entry c =
     c\<lparr>checked := (checked c)(t_elementId (snd entry) := True),
        templates := map (\<lambda>(k, model). if k = fst entry
                                        then (k, model\<lparr>isAnimated := True\<rparr>)
                                        else (k, model)) (templates c)\<rparr>"

definition handleReset ::
  "('m, 'n, 'r) extlib \<Rightarrow> ('m, 'n, 'r) ctx \<Rightarrow> jserror + ('m, 'n, 'r) ctx" where
  "handleReset L c =
     (let c1 = c\<lparr>rotator := setView L 17 [0, 1, 2] (rotator c),
                    frameNumber := 0,
                    sceneScale := 1,
                    isSceneAnimated := False\<rparr>;
          c2 = fold resetTemplate (templates c1) c1
      in render L c2)"

text \<open>
  \<open>handleSceneElementCheckboxChanges(paramObject)\<close>: the listener of the checkbox of a
  template; \<open>paramObject\<close> is the template stored under \<open>name\<close>.
\<close>

definition handleSceneElementCheckboxChanges ::
  "('m, 'n, 'r) extlib \<Rightarrow> string \<Rightarrow> ('m, 'n, 'r) ctx \<Rightarrow> jserror + ('m, 'n, 'r) ctx" where
  "handleSceneElementCheckboxChanges L name c =
     (let c1 = c\<lparr>templates := map (\<lambda>(k, model). if k = name
                                        then (k, model\<lparr>isAnimated := \<not> isAnimated model\<rparr>)
                                        else (k, model)) (templates c)\<rparr>
      in if \<not> isSceneAnimated c1 then render L c1 else Inr c1)"

text \<open>
  \<open>handleLightSourceCheckboxChanges(paramObject)\<close>: the listener of the checkbox of the
  light at index \<open>i\<close>; \<open>paramObject.lightsUniforms.enabled ^= 1\<close>. There is a checkbox
  for each light and for nothing else: an index without a light is no event.
\<close>

definition handleLightSourceCheckboxChanges ::
  "('m, 'n, 'r) extlib \<Rightarrow> nat \<Rightarrow> ('m, 'n, 'r) ctx \<Rightarrow> jserror + ('m, 'n, 'r) ctx" where
  "handleLightSourceCheckboxChanges L i c =
     (if \<not> i < length (lightSourceData c) then Inr c
      else
        (let paramObject = lightSourceData c ! i in
         case lightsUniforms paramObject of
           None \<Rightarrow> Inl TypeError
         | Some lu \<Rightarrow>
             (let lu' = setProp lu ''enabled'' (xor1 (getProp lu ''enabled''));
                  c1 = c\<lparr>lightSourceData :=
                          (lightSourceData c)[i := paramObject\<lparr>lightsUniforms := Some lu'\<rparr>]\<rparr>
              in if \<not> isSceneAnimated c1 then render L c1 else Inr c1)))"

text \<open>
  The \<open>wheel\<close> listener that \<open>init\<close> adds to the canvas:
  \<open>this.sceneScale += Math.sign(paramEvent.wheelDelta) / 10\<close>, then a render pass unless
  the scene is animated. \<open>wheelDelta\<close> is the property of the event, a finite number;
  \<open>Math.sign\<close> is \<open>sgn\<close>, which is exact; the division and the addition round.
\<close>

definition handleWheel ::
  "('m, 'n, 'r) extlib \<Rightarrow> real \<Rightarrow> ('m, 'n, 'r) ctx \<Rightarrow> jserror + ('m, 'n, 'r) ctx" where
  "handleWheel L wheelDelta c =
     (let c1 = c\<lparr>sceneScale := jsAdd (sceneScale c) (jsDiv (sgn wheelDelta) 10)\<rparr>
      in if \<not> isSceneAnimated c1 then render L c1 else Inr c1)"

text \<open>
  The callback that \<open>init\<close> gives to the \<open>TrackballRotator\<close>, which calls it after a drag
  has changed the rotator's state to \<open>r\<close>.
\<close>

definition handleDrag ::
  "('m, 'n, 'r) extlib \<Rightarrow> 'r \<Rightarrow> ('m, 'n, 'r) ctx \<Rightarrow> jserror + ('m, 'n, 'r) ctx" where
  "handleDrag L r c =
     (let c1 = c\<lparr>rotator := r\<rparr>
      in if \<not> isSceneAnimated c1 then render L c1 else Inr c1)"

text \<open>The commands of the interface, and runs of them that stop at the first throw.\<close>

datatype 'r command =
    Start | Stop | Reset | Tick
  | ToggleShape string | ToggleLight nat | Wheel real | Drag 'r

fun exec ::
  "('m, 'n, 'r) extlib \<Rightarrow> 'r command \<Rightarrow> ('m, 'n, 'r) ctx \<Rightarrow> jserror + ('m, 'n, 'r) ctx" where
  "exec L Start = handleAnimationStart L"
| "exec L Stop = handleAnimationStop"
| "exec L Reset = handleReset L"
| "exec L Tick = tick L"
| "exec L (ToggleShape name) = handleSceneElementCheckboxChanges L name"
| "exec L (ToggleLight i) = handleLightSourceCheckboxChanges L i"
| "exec L (Wheel d) = handleWheel L d"
| "exec L (Drag r) = handleDrag L r"

definition execAll ::
  "('m, 'n, 'r) extlib \<Rightarrow> 'r command list \<Rightarrow> ('m, 'n, 'r) ctx \<Rightarrow> jserror + ('m, 'n, 'r) ctx" where
  "execAll L cmds = forEach (exec L) cmds"

subsection \<open>Reading the log of WebGL calls\<close>

text \<open>
  \<open>gl.drawElements\<close> draws from the buffer bound to \<open>ELEMENT_ARRAY_BUFFER\<close> at the time
  of the call. \<open>drawnFrom b calls\<close> lists, for each draw call of \<open>calls\<close>, the index buffer it
  draws from, \<open>b\<close> being the binding before them; a draw call references a template when
  it draws from the template's \<open>indexBuffer\<close>.
\<close>

fun drawnFrom :: "nat option \<Rightarrow> ('m, 'n) glcall list \<Rightarrow> nat option list" where
  "drawnFrom b [] = []"
| "drawnFrom b (BindBuffer ELEMENT_ARRAY_BUFFER k # calls) = drawnFrom (Some k) calls"
| "drawnFrom b (DrawElements mode n # calls) = b # drawnFrom b calls"
| "drawnFrom b (call # calls) = drawnFrom b calls"

text \<open>The matrices handed to the shader's \<open>modelview\<close> uniform, one for each draw.\<close>

fun modelviewsOf :: "('m, 'n) glcall list \<Rightarrow> 'm list" where
  "modelviewsOf [] = []"
| "modelviewsOf (UniformMatrix4fv U_modelview m # calls) = m # modelviewsOf calls"
| "modelviewsOf (call # calls) = modelviewsOf calls"

text \<open>The number of render passes in a log: each pass clears the canvas once.\<close>

fun isClear :: "('m, 'n) glcall \<Rightarrow> bool" where
  "isClear Clear = True"
| "isClear call = False"

definition passes :: "('m, 'n) glcall list \<Rightarrow> nat" where
  "passes calls = length (filter isClear calls)"

subsection \<open>Data arrays\<close>

text \<open>
  The arrays \<open>debugSceneObjectsData\<close>, \<open>sceneObjectsData\<close> and \<open>lightSourceData\<close> of
  the source: the values that the fields of these names have in the state that \<open>init\<close>
  builds.
\<close>

definition debugSceneObjects :: "shape list" where
  "debugSceneObjects =
     [\<lparr>shapeType = ''Sierpinski'', shapeColor = WHITE, isWireFrame = False, texture = None,
        specularColor = Some WHITE, specularExponent = Some 32,
        translate = [0, 0, 0], scale = [0.5, 0.5, 0.5],
        rotate = [(X, 5)]\<rparr>]"

definition sceneObjects :: "shape list" where
  "sceneObjects =
     [\<lparr>shapeType = ''Sierpinski'', shapeColor = BROWN, isWireFrame = False, texture = None,
        specularColor = Some WHITE, specularExponent = Some 32,
        translate = [0, 0, -1], scale = [0.5, 0.5, 0.5],
        rotate = [(X, -9), (Y, 2)]\<rparr>,
      \<lparr>shapeType = ''Icosahedron'', shapeColor = BROWN, isWireFrame = False, texture = None,
        specularColor = Some WHITE, specularExponent = Some 16,
        translate = [1, 0, 0], scale = [0.3, 0.3, 0.3],
        rotate = [(X, 0), (Y, 5), (Z, -1)]\<rparr>,
      \<lparr>shapeType = ''Dodecahedron'', shapeColor = BROWN, isWireFrame = False, texture = None,
        specularColor = Some WHITE, specularExponent = Some 16,
        translate = [-1, 0, 0], scale = [0.3, 0.3, 0.3],
        rotate = [(X, -2), (Y, 4), (Z, -2)]\<rparr>,
      \<lparr>shapeType = ''Octahedron'', shapeColor = BROWN, isWireFrame = False, texture = None,
        specularColor = Some GRAY, specularExponent = Some 16,
        translate = [0, 0, 1], scale = [0.3, 0.3, 0.3],
        rotate = [(X, 0), (Y, 7)]\<rparr>,
      \<lparr>shapeType = ''Pyramid'', shapeColor = GOLD, isWireFrame = False, texture = None,
        specularColor = Some BLACK, specularExponent = Some 16,
        translate = [3, 0, -3], scale = [0.5, 0.5, 0.5],
        rotate = [(X, -5), (Y, 3)]\<rparr>,
      \<lparr>shapeType = ''Cylinder'', shapeColor = GOLD, isWireFrame = True, texture = None,
        specularColor = Some BLACK, specularExponent = Some 16,
        translate = [3, 0, 3], scale = [0.3, 0.2, 0.3],
        rotate = [(X, -5), (Y, 5)]\<rparr>,
      \<lparr>shapeType = ''Cube'', shapeColor = GOLD, isWireFrame = False, texture = None,
        specularColor = Some GRAY, specularExponent = Some 32,
        translate = [-3, 0, 3], scale = [0.25, 0.25, 0.25],
        rotate = [(X, -8), (Y, 5)]\<rparr>,
      \<lparr>shapeType = ''Tetrahedron'', shapeColor = GOLD, isWireFrame = False, texture = None,
        specularColor = Some GRAY, specularExponent = Some 16,
        translate = [-3, 0, -3], scale = [0.3, 0.3, 0.3],
        rotate = [(X, -2), (Y, 7)]\<rparr>,
      \<lparr>shapeType = ''Sphere'', shapeColor = BROWN, isWireFrame = False, texture = Some JUPITER,
        specularColor = Some WHITE, specularExponent = Some 32,
        translate = [0, -2, 2], scale = [0.3, 0.3, 0.3],
        rotate = [(X, 0), (Y, 5)]\<rparr>,
      \<lparr>shapeType = ''Ring'', shapeColor = BROWN, isWireFrame = False, texture = Some SUN,
        specularColor = Some WHITE, specularExponent = Some 32,
        translate = [0, 2, -2], scale = [1, 1, 1],
        rotate = [(X, -1), (Y, 2), (Z, 5)]\<rparr>]"

text \<open>
  \<open>lightSourceData\<close>: the sun and the viewpoint light. \<open>elementId\<close> is the property
  that \<open>assembleCheckBoxElement\<close> adds to each entry.
\<close>

definition lightSources :: "light list" where
  "lightSources =
     [\<lparr>lightText = ''SunLight'',
        l_shapeType = Some ''Sphere'',
        l_shapeColor = Some WHITE,
        l_texture = Some SUN,
        l_materialUniforms = Some [(''emissiveColor'', Arr YELLOW)],
        lightsUniforms = Some [(''enabled'', Num 1),
                               (''position'', Arr [0, 0, 0, 1]),
                               (''color'', Arr WHITE),
                               (''attenuation'', Num 0.25)],
        l_transformations = Some [(Translate, [0, 0, 0]), (Scale, [0.15, 0.15, 0.15])],
        l_elementId = ''toggleSunLight''\<rparr>,
      \<lparr>lightText = ''ViewpointLight'',
        l_shapeType = None,
        l_shapeColor = None,
        l_texture = None,
        l_materialUniforms = None,
        lightsUniforms = Some [(''enabled'', Num 1), (''color'', Arr CHARCOAL)],
        l_transformations = None,
        l_elementId = ''toggleViewpointLight''\<rparr>]"

subsection \<open>Setting up the state\<close>

text \<open>The data that a getter of the polyhedra module returns.\<close>

record modelData =
  vertexPositions :: "real list"
  vertexNormals :: "real list"
  vertexTextureCoords :: "real list option"
  indices :: "nat list"

text \<open>
  \<open>assembleShapeTemplate(paramType, paramModelData)\<close>, with the checkbox id that
  \<open>assembleCheckBoxElement\<close> adds to the template in \<open>init\<close>. \<open>gl.createBuffer\<close> returns
  a new buffer on every call: \<open>n\<close> is the number of buffers created before.
\<close>

definition assembleShapeTemplate :: "nat \<Rightarrow> string \<Rightarrow> modelData \<Rightarrow> template" where
  "assembleShapeTemplate n paramType paramModelData =
     \<lparr>t_shapeType = paramType,
      coordsBuffer = n,
      normalBuffer = n + 1,
      texCoordsBuffer = (case vertexTextureCoords paramModelData of
                           None \<Rightarrow> None | Some _ \<Rightarrow> Some (n + 2)),
      indexBuffer = (case vertexTextureCoords paramModelData of
                       None \<Rightarrow> n + 2 | Some _ \<Rightarrow> n + 3),
      count = length (indices paramModelData),
      isAnimated = True,
      t_elementId = ''toggle'' @ paramType\<rparr>"

text \<open>\<open>assembleShapeTemplates\<close>: one template for each getter, in the order of the getters.\<close>

fun assembleShapeTemplates ::
  "nat \<Rightarrow> (string \<times> modelData) list \<Rightarrow> (string \<times> template) list" where
  "assembleShapeTemplates n [] = []"
| "assembleShapeTemplates n ((polyhedronName, d) # rest) =
     (polyhedronName, assembleShapeTemplate n polyhedronName d) #
       assembleShapeTemplates (n + (case vertexTextureCoords d of None \<Rightarrow> 3 | Some _ \<Rightarrow> 4))
         rest"

text \<open>
  The state that \<open>init\<close> builds before its first render pass, for the polyhedra
  \<open>polyhedra\<close> and a rotator in state \<open>r\<close>. The log starts here: the calls that
  compile the shaders, fill the buffers and set the default uniforms are not in it.
\<close>

definition initialState ::
  "('m, 'n, 'r) extlib \<Rightarrow> (string \<times> modelData) list \<Rightarrow> 'r \<Rightarrow> ('m, 'n, 'r) ctx" where
  "initialState L polyhedra r =
     \<lparr>heap = [],
      modelview = None,
      matrixStack = [],
      projection = mat4_create L,
      normalMatrix = mat3_create L,
      templates = assembleShapeTemplates 0 polyhedra,
      lightSourceData = lightSources,
      sceneObjectsData = sceneObjects,
      debugSceneObjectsData = debugSceneObjects,
      isSceneAnimated = False,
      frameNumber = 0,
      sceneScale = 1,
      rotator = r,
      glLog = [],
      pendingFrames = 0,
      alerts = [],
      checked = (\<lambda>elementId. True)\<rparr>"

definition init ::
  "('m, 'n, 'r) extlib \<Rightarrow> (string \<times> modelData) list \<Rightarrow> 'r \<Rightarrow> jserror + ('m, 'n, 'r) ctx" where
  "init L polyhedra r = render L (initialState L polyhedra r)"

subsection \<open>A polyhedra module and a matrix library to run the module on\<close>

text \<open>
  Modelled from the spec: the polyhedra module (\<open>ProjectFourDataModule\<close>, js/data.js) is
  not among the sources. The specification names ten shape kinds and gives the data of each
  as positions, normals, indices and optional texture coordinates. \<open>somePolyhedra\<close> has
  one entry for each of the ten kinds, each with the geometry of a single triangle; it stands
  for the module wherever the state is evaluated on concrete data.
\<close>

definition triangle :: "bool \<Rightarrow> modelData" where
  "triangle textured =
     \<lparr>vertexPositions = [0, 0, 0, 1, 0, 0, 0, 1, 0],
      vertexNormals = [0, 0, 1, 0, 0, 1, 0, 0, 1],
      vertexTextureCoords = (if textured then Some [0, 0, 1, 0, 0, 1] else None),
      indices = [0, 1, 2]\<rparr>"

definition somePolyhedra :: "(string \<times> modelData) list" where
  "somePolyhedra =
     [(''Sierpinski'', triangle False), (''Icosahedron'', triangle False),
      (''Dodecahedron'', triangle False), (''Octahedron'', triangle False),
      (''Pyramid'', triangle False), (''Cylinder'', triangle False),
      (''Cube'', triangle False), (''Tetrahedron'', triangle False),
      (''Sphere'', triangle True), (''Ring'', triangle True)]"

text \<open>
  A matrix library that keeps matrices as the terms that built them, so that the order of
  composition can be read off a matrix. Its rotator state is the pair given to
  \<open>setView\<close>; its \<open>vec4.transformMat4\<close> returns the vector unchanged.
\<close>

datatype mexp =
    Identity4
  | ViewMatrix real "real list"
  | Perspective real real real real
  | Scaled mexp "real list"
  | Translated mexp "real list"
  | Rotated mexp real "real list"
  | RotatedX mexp real
  | RotatedY mexp real
  | RotatedZ mexp real

datatype nexp = Identity3 | NormalFrom mexp

definition symbolic :: "(mexp, nexp, real \<times> real list) extlib" where
  "symbolic =
     \<lparr>mat4_perspective = Perspective,
      mat4_scale = Scaled,
      mat4_translate = Translated,
      mat4_rotate = Rotated,
      mat4_rotateX = RotatedX,
      mat4_rotateY = RotatedY,
      mat4_rotateZ = RotatedZ,
      mat3_normalFromMat4 = (\<lambda>n m. NormalFrom m),
      vec4_transformMat4 = (\<lambda>v m. v),
      mat4_create = Identity4,
      mat3_create = Identity3,
      getViewMatrix = (\<lambda>(d, v). ViewMatrix d v),
      setView = (\<lambda>d v r. (d, v))\<rparr>"

text \<open>The state after \<open>init\<close> has set everything up, before its first render pass.\<close>

definition state0 :: "(mexp, nexp, real \<times> real list) ctx" where
  "state0 = initialState symbolic somePolyhedra (17, [0, 1, 2])"

subsection \<open>Vocabulary for the properties of a render pass\<close>

text \<open>The buffer bound to \<open>ELEMENT_ARRAY_BUFFER\<close> after a list of calls.\<close>

fun boundAfter :: "nat option \<Rightarrow> ('m, 'n) glcall list \<Rightarrow> nat option" where
  "boundAfter b [] = b"
| "boundAfter b (BindBuffer ELEMENT_ARRAY_BUFFER k # calls) = boundAfter (Some k) calls"
| "boundAfter b (call # calls) = boundAfter b calls"

text \<open>The calls that set a scalar or vector uniform.\<close>

fun plain :: "('m, 'n) glcall \<Rightarrow> bool" where
  "plain (Uniform1i loc v) = True"
| "plain (Uniform1f loc v) = True"
| "plain (Uniform3f loc x y z) = True"
| "plain (Uniform4f loc x y z w) = True"
| "plain (Uniform4fv loc v) = True"
| "plain call = False"

text \<open>Everything in the state that a render pass only reads.\<close>

definition frame ::
  "('m, 'n, 'r) ctx \<Rightarrow>
     (string \<times> template) list \<times> light list \<times> shape list \<times> shape list \<times>
     bool \<times> int \<times> real \<times> 'r \<times> nat \<times> string list \<times> (string \<Rightarrow> bool)" where
  "frame c =
     (templates c, lightSourceData c, sceneObjectsData c, debugSceneObjectsData c,
      isSceneAnimated c, frameNumber c, sceneScale c, rotator c, pendingFrames c, alerts c,
      checked c)"

text \<open>The current matrix is a reference to an object of the heap.\<close>

definition mvValid :: "('m, 'n, 'r) ctx \<Rightarrow> bool" where
  "mvValid c = (case modelview c of None \<Rightarrow> False | Some a \<Rightarrow> a < length (heap c))"

text \<open>
  \<open>drew c c' bufs mats\<close>: from \<open>c\<close> to \<open>c'\<close> the stack and the contents of the current
  matrix are restored, and the log has grown by draw calls from the index buffers \<open>bufs\<close>,
  with the model-view matrices \<open>mats\<close>, and by no clearing of the canvas.
\<close>

definition drew ::
  "('m, 'n, 'r) ctx \<Rightarrow> ('m, 'n, 'r) ctx \<Rightarrow> nat option list \<Rightarrow> 'm list \<Rightarrow> bool" where
  "drew c c' bufs mats \<longleftrightarrow>
     frame c' = frame c \<and> matrixStack c' = matrixStack c \<and> mvValid c' \<and>
     current c' = current c \<and>
     (\<forall>b. drawnFrom b (glLog c') = drawnFrom b (glLog c) @ bufs) \<and>
     modelviewsOf (glLog c') = modelviewsOf (glLog c) @ mats \<and>
     passes (glLog c') = passes (glLog c)"

text \<open>
  \<open>inside c0 bufs mats m c\<close>: \<open>c\<close> is a state between the \<open>pushMatrix\<close> and the
  \<open>popMatrix\<close> of an instance that started in \<open>c0\<close>; the current matrix holds \<open>m\<close>.
\<close>

definition inside ::
  "('m, 'n, 'r) ctx \<Rightarrow> nat option list \<Rightarrow> 'm list \<Rightarrow> 'm \<Rightarrow> ('m, 'n, 'r) ctx \<Rightarrow> bool" where
  "inside c0 bufs mats m c \<longleftrightarrow>
     (\<exists>a. modelview c0 = Some a \<and> a < length (heap c0) \<and> modelview c = Some a \<and>
          heap c ! a = m \<and> heap c ! length (heap c0) = heap c0 ! a) \<and>
     frame c = frame c0 \<and>
     matrixStack c = matrixStack c0 @ [length (heap c0)] \<and>
     length (heap c) = Suc (length (heap c0)) \<and>
     (\<forall>b. drawnFrom b (glLog c) = drawnFrom b (glLog c0) @ bufs) \<and>
     modelviewsOf (glLog c) = modelviewsOf (glLog c0) @ mats \<and>
     passes (glLog c) = passes (glLog c0)"

text \<open>The angle of \<open>d\<close> degrees, in radians.\<close>

definition degrees :: "real \<Rightarrow> real" where
  "degrees d = d * pi / 180"

text \<open>
  The model-view matrix of a shape at frame \<open>F\<close>, composed onto the matrix \<open>B\<close> in the
  order: orbit about the vertical axis, translate, the declared rotations about the
  shape's own axes, scale.
\<close>

definition shapeMatrix :: "('m, 'n, 'r) extlib \<Rightarrow> int \<Rightarrow> shape \<Rightarrow> 'm \<Rightarrow> 'm" where
  "shapeMatrix L F cur B =
     mat4_scale L
       (foldl (\<lambda>m (key, v). mat4_rotateAxis L key m (degrees (of_int F * v)))
          (mat4_translate L (mat4_rotate L B (degrees (- of_int F)) [0, 1, 0]) (translate cur))
          (rotate cur))
       (scale cur)"

text \<open>The model-view matrix of the body of a light, composed onto the matrix \<open>B\<close>.\<close>

definition lightMatrix :: "('m, 'n, 'r) extlib \<Rightarrow> light \<Rightarrow> 'm \<Rightarrow> 'm" where
  "lightMatrix L light B =
     (case l_transformations light of
        None \<Rightarrow> B
      | Some ts \<Rightarrow> foldl (\<lambda>m (key, v). mat4_placement L key m v) B ts)"

text \<open>The shape type of the body of a light, for the lights that have one.\<close>

definition bodyOf :: "light \<Rightarrow> string option" where
  "bodyOf light =
     (case (l_shapeType light, l_shapeColor light) of
        (Some st, Some col) \<Rightarrow> Some st
      | _ \<Rightarrow> None)"

text \<open>A shape is visible when the template of its shape type is.\<close>

definition visible :: "(string \<times> template) list \<Rightarrow> shape \<Rightarrow> bool" where
  "visible ts cur =
     (case map_of ts (shapeType cur) of None \<Rightarrow> False | Some model \<Rightarrow> isAnimated model)"

text \<open>The index buffer of the template of a shape type.\<close>

definition bufferOf :: "(string \<times> template) list \<Rightarrow> string \<Rightarrow> nat option" where
  "bufferOf ts k = map_option indexBuffer (map_of ts k)"

text \<open>
  Data on which no step of a render pass throws: every shape type has a template, the
  arrays spread over the arguments of a WebGL call are long enough, and a light with a
  body has a position.
\<close>

definition wfShape :: "(string \<times> template) list \<Rightarrow> shape \<Rightarrow> bool" where
  "wfShape ts cur \<longleftrightarrow>
     map_of ts (shapeType cur) \<noteq> None \<and>
     (case specularColor cur of None \<Rightarrow> True | Some col \<Rightarrow> 3 \<le> length col)"

definition okLightValue :: "string \<Rightarrow> uval \<Rightarrow> bool" where
  "okLightValue key v =
     (case v of
        Arr a \<Rightarrow> if key = ''position'' then 4 \<le> length a else 3 \<le> length a
      | _ \<Rightarrow> True)"

definition okMaterialValue :: "string \<Rightarrow> uval \<Rightarrow> bool" where
  "okMaterialValue key v =
     (case v of Arr a \<Rightarrow> key = ''diffuseColor'' \<or> 4 \<le> length a | _ \<Rightarrow> True)"

definition wfLight :: "(string \<times> template) list \<Rightarrow> light \<Rightarrow> bool" where
  "wfLight ts light \<longleftrightarrow>
     (case lightsUniforms light of
        None \<Rightarrow> True
      | Some lu \<Rightarrow> list_all (\<lambda>key. okLightValue key (getProp lu key)) (map fst lu)) \<and>
     (case l_materialUniforms light of
        None \<Rightarrow> True
      | Some mu \<Rightarrow> list_all (\<lambda>key. okMaterialValue key (getProp mu key)) (map fst mu)) \<and>
     (case bodyOf light of
        None \<Rightarrow> True
      | Some st \<Rightarrow>
          map_of ts st \<noteq> None \<and>
          (case lightsUniforms light of
             None \<Rightarrow> False
           | Some lu \<Rightarrow> getProp lu ''position'' \<noteq> Undefined))"

definition wf :: "('m, 'n, 'r) ctx \<Rightarrow> bool" where
  "wf c \<longleftrightarrow>
     list_all (wfLight (templates c)) (lightSourceData c) \<and>
     list_all (wfShape (templates c))
       (if DEBUG then debugSceneObjectsData c else sceneObjectsData c)"

text \<open>
  What a render pass draws, in the order of the draw calls: the shape types, and the
  model-view matrices composed onto the matrix \<open>B\<close>.
\<close>

definition drawnKinds :: "('m, 'n, 'r) ctx \<Rightarrow> string list" where
  "drawnKinds c =
     List.map_filter bodyOf (lightSourceData c) @
     map shapeType (filter (visible (templates c))
       (if DEBUG then debugSceneObjectsData c else sceneObjectsData c))"

definition drawnMatrices :: "('m, 'n, 'r) extlib \<Rightarrow> ('m, 'n, 'r) ctx \<Rightarrow> 'm \<Rightarrow> 'm list" where
  "drawnMatrices L c B =
     map (\<lambda>light. lightMatrix L light B) (filter (\<lambda>light. bodyOf light \<noteq> None) (lightSourceData c)) @
     map (\<lambda>cur. shapeMatrix L (frameNumber c) cur B)
       (filter (visible (templates c))
          (if DEBUG then debugSceneObjectsData c else sceneObjectsData c))"

text \<open>The view matrix scaled by the zoom factor, onto which a render pass composes.\<close>

definition sceneBase :: "('m, 'n, 'r) extlib \<Rightarrow> ('m, 'n, 'r) ctx \<Rightarrow> 'm" where
  "sceneBase L c =
     mat4_scale L (getViewMatrix L (rotator c)) [sceneScale c, sceneScale c, sceneScale c]"

subsection \<open>Vocabulary for runs\<close>

text \<open>The state a procedure leaves, if it completes.\<close>

definition completed :: "jserror + 'a \<Rightarrow> 'a option" where
  "completed r = (case r of Inl e \<Rightarrow> None | Inr c \<Rightarrow> Some c)"

text \<open>
  Pushes, the i-th followed by the in-place mutations \<open>fss ! i\<close> of the current matrix,
  and then as many pops as there were pushes.
\<close>

definition pushesThenPops :: "('m \<Rightarrow> 'm) list list \<Rightarrow> 'm stackOp list" where
  "pushesThenPops fss = concat (map pushThenMutate fss) @ replicate (length fss) Pop"

text \<open>
  The zoom factor after a run of commands that starts at the factor \<open>s\<close>: a reset makes
  it 1, a wheel event adds to it a tenth of the sign of its \<open>wheelDelta\<close>, both in the
  arithmetic of JavaScript numbers, and no other command changes it.
\<close>

fun zoomAfter :: "'r command list \<Rightarrow> real \<Rightarrow> real" where
  "zoomAfter [] s = s"
| "zoomAfter (Reset # cmds) s = zoomAfter cmds 1"
| "zoomAfter (Wheel d # cmds) s = zoomAfter cmds (jsAdd s (jsDiv (sgn d) 10))"
| "zoomAfter (cmd # cmds) s = zoomAfter cmds s"

text \<open>Every light has the table of uniforms in which its checkbox toggles \<open>enabled\<close>.\<close>

definition hasUniforms :: "('m, 'n, 'r) ctx \<Rightarrow> bool" where
  "hasUniforms c \<longleftrightarrow> list_all (\<lambda>light. lightsUniforms light \<noteq> None) (lightSourceData c)"

text \<open>The state after \<open>init\<close>, which does not throw on this data.\<close>

definition state1 :: "(mexp, nexp, real \<times> real list) ctx" where
  "state1 = (case init symbolic somePolyhedra (17, [0, 1, 2]) of Inr c \<Rightarrow> c | Inl e \<Rightarrow> state0)"

section \<open>Proofs\<close>

lemma andThen_simps [simp]:
  "andThen (Inr x) f = f x"
  "andThen (Inl e) f = Inl e"
  by (simp_all add: andThen_def)

lemma drawnFrom_append:
  "drawnFrom b (xs @ ys) = drawnFrom b xs @ drawnFrom (boundAfter b xs) ys"
  by (induction b xs rule: drawnFrom.induct) simp_all

lemma boundAfter_append:
  "boundAfter b (xs @ ys) = boundAfter (boundAfter b xs) ys"
  by (induction b xs rule: boundAfter.induct) simp_all

lemma modelviewsOf_append:
  "modelviewsOf (xs @ ys) = modelviewsOf xs @ modelviewsOf ys"
  by (induction xs rule: modelviewsOf.induct) simp_all

lemma passes_append: "passes (xs @ ys) = passes xs + passes ys"
  by (simp add: passes_def)

lemmas log_append = drawnFrom_append boundAfter_append modelviewsOf_append passes_append

lemma plain_calls:
  assumes "list_all plain seg"
  shows "drawnFrom b seg = []" "boundAfter b seg = b" "modelviewsOf seg = []" "passes seg = 0"
  using assms
proof (induction seg)
  case Nil
  { case 1 show ?case by simp }
  { case 2 show ?case by simp }
  { case 3 show ?case by simp }
  { case 4 show ?case by (simp add: passes_def) }
next
  case (Cons call seg)
  { case 1 then show ?case using Cons.IH(1) by (cases call) simp_all }
  { case 2 then show ?case using Cons.IH(2) by (cases call) simp_all }
  { case 3 then show ?case using Cons.IH(3) by (cases call) simp_all }
  { case 4 then show ?case using Cons.IH(4) by (cases call) (simp_all add: passes_def) }
qed

lemma frame_fields:
  assumes "frame c' = frame c"
  shows "templates c' = templates c" "lightSourceData c' = lightSourceData c"
    "sceneObjectsData c' = sceneObjectsData c" "debugSceneObjectsData c' = debugSceneObjectsData c"
    "isSceneAnimated c' = isSceneAnimated c" "frameNumber c' = frameNumber c"
    "sceneScale c' = sceneScale c" "rotator c' = rotator c" "pendingFrames c' = pendingFrames c"
    "alerts c' = alerts c" "checked c' = checked c"
  using assms by (simp_all add: frame_def)

subsection \<open>Steps inside an instance\<close>

lemma inside_push:
  assumes "mvValid c0"
  shows "\<exists>c. pushMatrix c0 = Inr c \<and> inside c0 [] [] (the (current c0)) c"
proof -
  from assms obtain a where a: "modelview c0 = Some a" "a < length (heap c0)"
    by (auto simp: mvValid_def split: option.splits)
  then show ?thesis
    by (simp add: pushMatrix_def inside_def frame_def current_def nth_append)
qed

lemma inside_log:
  assumes "inside c0 D M W c" "list_all plain seg"
  shows "inside c0 D M W (c\<lparr>glLog := glLog c @ seg\<rparr>)"
  using assms by (simp add: inside_def frame_def log_append plain_calls)

lemma inside_gl:
  assumes "inside c0 D M W c" "plain call"
  shows "\<exists>c'. gl call c = Inr c' \<and> inside c0 D M W c'"
  using inside_log[OF assms(1), of "[call]"] assms(2) by (simp add: gl_def)

lemma inside_mutate:
  assumes "inside c0 D M W c"
  shows "\<exists>c'. mutateModelview f c = Inr c' \<and> inside c0 D M (f W) c'"
proof -
  from assms obtain a where a: "modelview c0 = Some a" "a < length (heap c0)"
    "modelview c = Some a" "heap c ! a = W" "heap c ! length (heap c0) = heap c0 ! a"
    by (auto simp: inside_def)
  have len: "length (heap c) = Suc (length (heap c0))" using assms by (simp add: inside_def)
  show ?thesis using assms a len
    by (simp add: mutateModelview_def inside_def frame_def)
qed

lemma inside_hstr:
  assumes "inside c0 D M W c" "map_of (templates c0) st = Some model"
  shows "\<exists>c'. handleShapeTemplateRendering L st w tex col c = Inr c' \<and>
           inside c0 (D @ [Some (indexBuffer model)]) (M @ [W]) W c'"
proof -
  from assms obtain a where a: "modelview c0 = Some a" "a < length (heap c0)"
    "modelview c = Some a" "heap c ! a = W" "heap c ! length (heap c0) = heap c0 ! a"
    by (auto simp: inside_def)
  have t: "map_of (templates c) st = Some model"
    using assms by (simp add: inside_def frame_def)
  show ?thesis using assms(1) a t
    by (cases "texCoordsBuffer model"; cases tex)
       (simp_all add: handleShapeTemplateRendering_def handleBufferBinding_def
          handleTextureLoading_def current_def gl_def inside_def frame_def log_append passes_def)
qed

lemma inside_pop:
  assumes "inside c0 D M W c"
  shows "\<exists>c'. popMatrix c = Inr c' \<and> drew c0 c' D M"
  using assms
  by (auto simp: popMatrix_def inside_def drew_def frame_def mvValid_def current_def)

lemma inside_uniform3f:
  assumes "inside c0 D M W c" "3 \<le> length v"
  shows "\<exists>c'. uniform3f loc v c = Inr c' \<and> inside c0 D M W c'"
proof -
  from assms(2) obtain x y z rest where "v = x # y # z # rest"
    by (cases v; cases "tl v"; cases "tl (tl v)") auto
  then show ?thesis using inside_gl[OF assms(1), of "Uniform3f loc x y z"]
    by (simp add: uniform3f_def)
qed

lemma inside_uniform4f:
  assumes "inside c0 D M W c" "4 \<le> length v"
  shows "\<exists>c'. uniform4f loc v c = Inr c' \<and> inside c0 D M W c'"
proof -
  from assms(2) obtain x y z w rest where "v = x # y # z # w # rest"
    by (cases v; cases "tl v"; cases "tl (tl v)"; cases "tl (tl (tl v))") auto
  then show ?thesis using inside_gl[OF assms(1), of "Uniform4f loc x y z w"]
    by (simp add: uniform4f_def)
qed

lemma inside_lightUniform:
  assumes "inside c0 D M W c" "i < length (lightSourceData c0)" "okLightValue key (getProp obj key)"
  shows "\<exists>c'. handleDefinitionOfUniform obj key (Some i) c = Inr c' \<and> inside c0 D M W c'"
proof -
  have i: "i < length (lightSourceData c)"
    using assms(1,2) by (simp add: inside_def frame_def)
  show ?thesis
  proof (cases "getProp obj key")
    case Undefined
    then show ?thesis using i inside_gl[OF assms(1)]
      by (simp add: handleDefinitionOfUniform_def Let_def)
  next
    case (Num x)
    then show ?thesis using i inside_gl[OF assms(1)]
      by (simp add: handleDefinitionOfUniform_def Let_def)
  next
    case (Arr a)
    then show ?thesis
      using i assms(3) inside_uniform3f[OF assms(1), of "take 3 a"] inside_uniform4f[OF assms(1), of a]
      by (simp add: handleDefinitionOfUniform_def okLightValue_def Let_def split: if_splits)
  qed
qed

lemma inside_materialUniform:
  assumes "inside c0 D M W c" "okMaterialValue key (getProp obj key)"
  shows "\<exists>c'. handleDefinitionOfUniform obj key None c = Inr c' \<and> inside c0 D M W c'"
proof (cases "getProp obj key")
  case Undefined
  then show ?thesis using inside_gl[OF assms(1)]
    by (simp add: handleDefinitionOfUniform_def Let_def)
next
  case (Num x)
  then show ?thesis using inside_gl[OF assms(1)]
    by (simp add: handleDefinitionOfUniform_def Let_def)
next
  case (Arr a)
  then show ?thesis
    using assms(2) inside_uniform3f[OF assms(1), of "take (length a - 1) a"] inside_gl[OF assms(1)]
    by (auto simp: handleDefinitionOfUniform_def okMaterialValue_def Let_def)
qed

text \<open>A loop whose body keeps the invariant.\<close>

lemma forEach_inv:
  assumes "I c" "\<And>x c. x \<in> set xs \<Longrightarrow> I c \<Longrightarrow> \<exists>c'. body x c = Inr c' \<and> I c'"
  shows "\<exists>c'. forEach body xs c = Inr c' \<and> I c'"
  using assms
proof (induction xs arbitrary: c)
  case Nil
  then show ?case by simp
next
  case (Cons x xs)
  from Cons.prems(2)[of x c] Cons.prems(1) obtain c1 where c1: "body x c = Inr c1" "I c1" by auto
  from Cons.IH[OF c1(2)] Cons.prems(2) obtain c' where "forEach body xs c1 = Inr c'" "I c'"
    by (metis list.set_intros(2))
  then show ?case using c1 by simp
qed

lemma inside_lightUniforms:
  assumes "inside c0 D M W c" "i < length (lightSourceData c0)"
    "list_all (\<lambda>key. okLightValue key (getProp obj key)) keys"
  shows "\<exists>c'. forEach (\<lambda>key. handleDefinitionOfUniform obj key (Some i)) keys c = Inr c' \<and>
           inside c0 D M W c'"
  using assms(1)
proof (rule forEach_inv)
  fix key c assume "key \<in> set keys" "inside c0 D M W c"
  then show "\<exists>c'. handleDefinitionOfUniform obj key (Some i) c = Inr c' \<and> inside c0 D M W c'"
    using inside_lightUniform[of c0 D M W c i key obj] assms(2,3) by (auto simp: list_all_iff)
qed

lemma inside_materialUniforms:
  assumes "inside c0 D M W c"
    "list_all (\<lambda>key. okMaterialValue key (getProp obj key)) keys"
  shows "\<exists>c'. forEach (\<lambda>key. handleDefinitionOfUniform obj key None) keys c = Inr c' \<and>
           inside c0 D M W c'"
  using assms(1)
proof (rule forEach_inv)
  fix key c assume "key \<in> set keys" "inside c0 D M W c"
  then show "\<exists>c'. handleDefinitionOfUniform obj key None c = Inr c' \<and> inside c0 D M W c'"
    using inside_materialUniform[of c0 D M W c key obj] assms(2) by (auto simp: list_all_iff)
qed

lemma default_material_ok: "okMaterialValue key (getProp DefaultUniforms_MATERIAL key)"
  by (simp add: okMaterialValue_def getProp_def DefaultUniforms_MATERIAL_def GRAY_def BLACK_def)

lemma inside_rotations:
  assumes "inside c0 D M W c"
  shows "\<exists>c'. forEach (rotateShape L) rs c = Inr c' \<and>
           inside c0 D M
             (foldl (\<lambda>m (key, v). mat4_rotateAxis L key m (degrees (of_int (frameNumber c0) * v))) W rs) c'"
  using assms
proof (induction rs arbitrary: c W)
  case Nil
  then show ?case by simp
next
  case (Cons r rs)
  obtain key v where r: "r = (key, v)" by (cases r)
  have F: "frameNumber c = frameNumber c0" using Cons.prems by (simp add: inside_def frame_def)
  from inside_mutate[OF Cons.prems, of "\<lambda>m. mat4_rotateAxis L key m (of_int (frameNumber c) * v / 180 * pi)"]
  obtain c1 where c1: "rotateShape L r c = Inr c1"
    "inside c0 D M (mat4_rotateAxis L key W (degrees (of_int (frameNumber c0) * v))) c1"
    by (auto simp: r F degrees_def)
  from Cons.IH[OF c1(2)] c1(1) show ?case by (simp add: r)
qed

lemma inside_placements:
  assumes "inside c0 D M W c"
  shows "\<exists>c'. forEach (placeLight L) ts c = Inr c' \<and>
           inside c0 D M (foldl (\<lambda>m (key, v). mat4_placement L key m v) W ts) c'"
  using assms
proof (induction ts arbitrary: c W)
  case Nil
  then show ?case by simp
next
  case (Cons r ts)
  obtain key v where r: "r = (key, v)" by (cases r)
  from inside_mutate[OF Cons.prems, of "\<lambda>m. mat4_placement L key m v"]
  obtain c1 where c1: "placeLight L r c = Inr c1" "inside c0 D M (mat4_placement L key W v) c1"
    by (auto simp: r)
  from Cons.IH[OF c1(2)] c1(1) show ?case by (simp add: r)
qed

lemma inside_position:
  assumes "inside c0 D M W c" "v \<noteq> Undefined"
  shows "\<exists>c'. handleLightPositioning L loc v c = Inr c' \<and> inside c0 D M W c'"
proof -
  from assms obtain a where a: "modelview c = Some a" by (auto simp: inside_def)
  show ?thesis using assms(2) a inside_gl[OF assms(1)]
    by (cases v) (simp_all add: handleLightPositioning_def current_def)
qed

subsection \<open>One shape\<close>

lemma assembleShape_hidden:
  assumes "map_of (templates c) (shapeType cur) = Some model" "\<not> isAnimated model" "mvValid c"
  shows "assembleShape L cur c = Inr c" "drew c c [] []"
  using assms by (simp_all add: assembleShape_def drew_def)

lemma assembleShape_visible:
  assumes "mvValid c" "map_of (templates c) (shapeType cur) = Some model" "isAnimated model"
    and "wfShape (templates c) cur"
  shows "\<exists>c'. assembleShape L cur c = Inr c' \<and>
           drew c c' [Some (indexBuffer model)]
             [shapeMatrix L (frameNumber c) cur (the (current c))]"
proof -
  let ?B = "the (current c)"
  let ?F = "frameNumber c"
  from inside_push[OF assms(1)] obtain c1 where
    c1: "pushMatrix c = Inr c1" "inside c [] [] ?B c1" by blast
  have F1: "frameNumber c1 = ?F" using c1(2) by (simp add: inside_def frame_def)
  from inside_mutate[OF c1(2), of "\<lambda>m. mat4_rotate L m (of_int (- frameNumber c1) / 180 * pi) [0, 1, 0]"]
  obtain c2 where c2: "orbitShape L c1 = Inr c2"
    "inside c [] [] (mat4_rotate L ?B (degrees (- of_int ?F)) [0, 1, 0]) c2"
    by (auto simp: orbitShape_def F1 degrees_def)
  from inside_mutate[OF c2(2), of "\<lambda>m. mat4_translate L m (translate cur)"]
  obtain c3 where c3: "mutateModelview (\<lambda>m. mat4_translate L m (translate cur)) c2 = Inr c3"
    "inside c [] [] (mat4_translate L (mat4_rotate L ?B (degrees (- of_int ?F)) [0, 1, 0]) (translate cur)) c3"
    by blast
  from inside_rotations[OF c3(2), of L "rotate cur"]
  obtain c4 where c4: "forEach (rotateShape L) (rotate cur) c3 = Inr c4"
    "inside c [] []
       (foldl (\<lambda>m (key, v). mat4_rotateAxis L key m (degrees (of_int ?F * v)))
          (mat4_translate L (mat4_rotate L ?B (degrees (- of_int ?F)) [0, 1, 0]) (translate cur))
          (rotate cur)) c4"
    by blast
  from inside_mutate[OF c4(2), of "\<lambda>m. mat4_scale L m (scale cur)"]
  obtain c5 where c5: "mutateModelview (\<lambda>m. mat4_scale L m (scale cur)) c4 = Inr c5"
    "inside c [] [] (shapeMatrix L ?F cur ?B) c5"
    by (auto simp: shapeMatrix_def)
  have "\<exists>c6. (case specularColor cur of
                 Some col \<Rightarrow> uniform3f (U_material ''specularColor'') col
               | None \<Rightarrow> skip) c5 = Inr c6 \<and> inside c [] [] (shapeMatrix L ?F cur ?B) c6"
    using assms(4) c5(2) inside_uniform3f[OF c5(2)]
    by (auto simp: wfShape_def skip_def split: option.splits)
  then obtain c6 where c6: "(case specularColor cur of
                 Some col \<Rightarrow> uniform3f (U_material ''specularColor'') col
               | None \<Rightarrow> skip) c5 = Inr c6" "inside c [] [] (shapeMatrix L ?F cur ?B) c6"
    by blast
  have "\<exists>c7. (case specularExponent cur of
                 Some e \<Rightarrow> gl (Uniform1f (U_material ''specularExponent'') (Num e))
               | None \<Rightarrow> skip) c6 = Inr c7 \<and> inside c [] [] (shapeMatrix L ?F cur ?B) c7"
    using c6(2) inside_gl[OF c6(2)]
    by (auto simp: skip_def split: option.splits)
  then obtain c7 where c7: "(case specularExponent cur of
                 Some e \<Rightarrow> gl (Uniform1f (U_material ''specularExponent'') (Num e))
               | None \<Rightarrow> skip) c6 = Inr c7" "inside c [] [] (shapeMatrix L ?F cur ?B) c7"
    by blast
  from inside_hstr[OF c7(2) assms(2), of L "isWireFrame cur" "texture cur" "shapeColor cur"]
  obtain c8 where c8: "handleShapeTemplateRendering L (shapeType cur) (isWireFrame cur)
                   (texture cur) (shapeColor cur) c7 = Inr c8"
    "inside c [Some (indexBuffer model)] [shapeMatrix L ?F cur ?B] (shapeMatrix L ?F cur ?B) c8"
    by auto
  have "\<exists>c9. (case specularColor cur of
                    Some col \<Rightarrow>
                      (case getProp DefaultUniforms_MATERIAL ''specularColor'' of
                         Arr d \<Rightarrow> uniform3f (U_material ''specularColor'') d
                       | _ \<Rightarrow> (\<lambda>c. Inl TypeError))
                  | None \<Rightarrow> skip) c8 = Inr c9 \<and>
           inside c [Some (indexBuffer model)] [shapeMatrix L ?F cur ?B] (shapeMatrix L ?F cur ?B) c9"
    using c8(2) inside_uniform3f[OF c8(2), of GRAY]
    by (auto simp: skip_def getProp_def DefaultUniforms_MATERIAL_def GRAY_def split: option.splits)
  then obtain c9 where c9: "(case specularColor cur of
                    Some col \<Rightarrow>
                      (case getProp DefaultUniforms_MATERIAL ''specularColor'' of
                         Arr d \<Rightarrow> uniform3f (U_material ''specularColor'') d
                       | _ \<Rightarrow> (\<lambda>c. Inl TypeError))
                  | None \<Rightarrow> skip) c8 = Inr c9"
    "inside c [Some (indexBuffer model)] [shapeMatrix L ?F cur ?B] (shapeMatrix L ?F cur ?B) c9"
    by blast
  have "\<exists>c10. (case specularExponent cur of
                    Some e \<Rightarrow>
                      gl (Uniform1f (U_material ''specularExponent'')
                            (getProp DefaultUniforms_MATERIAL ''specularExponent''))
                  | None \<Rightarrow> skip) c9 = Inr c10 \<and>
           inside c [Some (indexBuffer model)] [shapeMatrix L ?F cur ?B] (shapeMatrix L ?F cur ?B) c10"
    using c9(2) inside_gl[OF c9(2)]
    by (auto simp: skip_def split: option.splits)
  then obtain c10 where c10: "(case specularExponent cur of
                    Some e \<Rightarrow>
                      gl (Uniform1f (U_material ''specularExponent'')
                            (getProp DefaultUniforms_MATERIAL ''specularExponent''))
                  | None \<Rightarrow> skip) c9 = Inr c10"
    "inside c [Some (indexBuffer model)] [shapeMatrix L ?F cur ?B] (shapeMatrix L ?F cur ?B) c10"
    by blast
  from inside_pop[OF c10(2)] obtain c' where
    c': "popMatrix c10 = Inr c'" "drew c c' [Some (indexBuffer model)] [shapeMatrix L ?F cur ?B]"
    by blast
  have "assembleShape L cur c = Inr c'"
    using assms(2,3) c1(1) c2(1) c3(1) c4(1) c5(1) c6(1) c7(1) c8(1) c9(1) c10(1) c'(1)
    by (simp add: assembleShape_def DEBUG_def)
  then show ?thesis using c'(2) by blast
qed

subsection \<open>One light\<close>

lemma assembleLight_drew:
  assumes "mvValid c" "i < length (lightSourceData c)" "wfLight (templates c) light"
  shows "\<exists>c'. assembleLight L i light c = Inr c' \<and>
           drew c c'
             (case bodyOf light of None \<Rightarrow> [] | Some st \<Rightarrow> [bufferOf (templates c) st])
             (case bodyOf light of None \<Rightarrow> []
              | Some st \<Rightarrow> [lightMatrix L light (the (current c))])"
proof -
  let ?B = "the (current c)"
  let ?W = "lightMatrix L light ?B"
  let ?D = "case bodyOf light of None \<Rightarrow> [] | Some st \<Rightarrow> [bufferOf (templates c) st]"
  let ?M = "case bodyOf light of None \<Rightarrow> [] | Some st \<Rightarrow> [?W]"
  from inside_push[OF assms(1)] obtain c1 where
    c1: "pushMatrix c = Inr c1" "inside c [] [] ?B c1" by blast
  have "\<exists>c2. (case lightsUniforms light of
                 None \<Rightarrow> skip
               | Some lu \<Rightarrow>
                   forEach (\<lambda>key. handleDefinitionOfUniform lu key (Some i)) (map fst lu)) c1 = Inr c2
             \<and> inside c [] [] ?B c2"
    using assms(3) c1(2) inside_lightUniforms[OF c1(2) assms(2)]
    by (auto simp: wfLight_def skip_def split: option.splits)
  then obtain c2 where c2: "(case lightsUniforms light of
                 None \<Rightarrow> skip
               | Some lu \<Rightarrow>
                   forEach (\<lambda>key. handleDefinitionOfUniform lu key (Some i)) (map fst lu)) c1 = Inr c2"
    "inside c [] [] ?B c2" by blast
  have "\<exists>c3. (case l_transformations light of
                 None \<Rightarrow> skip
               | Some ts \<Rightarrow> forEach (placeLight L) ts) c2 = Inr c3
             \<and> inside c [] [] ?W c3"
    using c2(2) inside_placements[OF c2(2), of L]
    by (auto simp: lightMatrix_def skip_def split: option.splits)
  then obtain c3 where c3: "(case l_transformations light of
                 None \<Rightarrow> skip
               | Some ts \<Rightarrow> forEach (placeLight L) ts) c2 = Inr c3"
    "inside c [] [] ?W c3" by blast
  have "\<exists>c4. (case l_materialUniforms light of
                 None \<Rightarrow> skip
               | Some mu \<Rightarrow>
                   forEach (\<lambda>key. handleDefinitionOfUniform mu key None) (map fst mu)) c3 = Inr c4
             \<and> inside c [] [] ?W c4"
    using assms(3) c3(2) inside_materialUniforms[OF c3(2)]
    by (auto simp: wfLight_def skip_def split: option.splits)
  then obtain c4 where c4: "(case l_materialUniforms light of
                 None \<Rightarrow> skip
               | Some mu \<Rightarrow>
                   forEach (\<lambda>key. handleDefinitionOfUniform mu key None) (map fst mu)) c3 = Inr c4"
    "inside c [] [] ?W c4" by blast
  have "\<exists>c5. (case (l_shapeType light, l_shapeColor light) of
             (Some st, Some col) \<Rightarrow>
               (case lightsUniforms light of
                  None \<Rightarrow> (\<lambda>c. Inl TypeError)
                | Some lu \<Rightarrow>
                    seq [handleLightPositioning L (U_lights i ''position'')
                           (getProp lu ''position''),
                         handleShapeTemplateRendering L st False (l_texture light) col])
           | _ \<Rightarrow> skip) c4 = Inr c5 \<and> inside c ?D ?M ?W c5"
  proof (cases "bodyOf light")
    case None
    then show ?thesis using c4(2)
      by (auto simp: bodyOf_def skip_def split: option.splits)
  next
    case (Some st)
    then obtain col where b: "l_shapeType light = Some st" "l_shapeColor light = Some col"
      by (auto simp: bodyOf_def split: option.splits)
    from assms(3) Some obtain lu model where
      lu: "lightsUniforms light = Some lu" "getProp lu ''position'' \<noteq> Undefined"
      and model: "map_of (templates c) st = Some model"
      by (auto simp: wfLight_def split: option.splits)
    from inside_position[OF c4(2) lu(2)] obtain d where
      d: "handleLightPositioning L (U_lights i ''position'') (getProp lu ''position'') c4 = Inr d"
      "inside c [] [] ?W d" by blast
    from inside_hstr[OF d(2) model, of L False "l_texture light" col] obtain c5 where
      "handleShapeTemplateRendering L st False (l_texture light) col d = Inr c5"
      "inside c [Some (indexBuffer model)] [?W] ?W c5" by auto
    then show ?thesis using d(1) b lu(1) model Some by (simp add: bufferOf_def)
  qed
  then obtain c5 where c5: "(case (l_shapeType light, l_shapeColor light) of
             (Some st, Some col) \<Rightarrow>
               (case lightsUniforms light of
                  None \<Rightarrow> (\<lambda>c. Inl TypeError)
                | Some lu \<Rightarrow>
                    seq [handleLightPositioning L (U_lights i ''position'')
                           (getProp lu ''position''),
                         handleShapeTemplateRendering L st False (l_texture light) col])
           | _ \<Rightarrow> skip) c4 = Inr c5" "inside c ?D ?M ?W c5" by blast
  have "\<exists>c6. (case l_materialUniforms light of
             None \<Rightarrow> skip
           | Some mu \<Rightarrow>
               forEach (\<lambda>key. handleDefinitionOfUniform DefaultUniforms_MATERIAL key None)
                 (map fst mu)) c5 = Inr c6 \<and> inside c ?D ?M ?W c6"
    using c5(2) inside_materialUniforms[OF c5(2), of DefaultUniforms_MATERIAL] default_material_ok
    by (auto simp: skip_def list_all_iff split: option.splits)
  then obtain c6 where c6: "(case l_materialUniforms light of
             None \<Rightarrow> skip
           | Some mu \<Rightarrow>
               forEach (\<lambda>key. handleDefinitionOfUniform DefaultUniforms_MATERIAL key None)
                 (map fst mu)) c5 = Inr c6" "inside c ?D ?M ?W c6" by blast
  from inside_pop[OF c6(2)] obtain c' where c': "popMatrix c6 = Inr c'" "drew c c' ?D ?M"
    by blast
  have "assembleLight L i light c = Inr c'"
    using c1(1) c2(1) c3(1) c4(1) c5(1) c6(1) c'(1) by (simp add: assembleLight_def)
  then show ?thesis using c'(2) by blast
qed

subsection \<open>The two loops\<close>

lemma drew_refl: "mvValid c \<Longrightarrow> drew c c [] []"
  by (simp add: drew_def)

lemma drew_trans:
  "drew c c1 D1 M1 \<Longrightarrow> drew c1 c2 D2 M2 \<Longrightarrow> drew c c2 (D1 @ D2) (M1 @ M2)"
  by (simp add: drew_def)

lemma assembleShape_drew:
  assumes "mvValid c" "wfShape (templates c) cur"
  shows "\<exists>c'. assembleShape L cur c = Inr c' \<and>
           drew c c'
             (if visible (templates c) cur then [bufferOf (templates c) (shapeType cur)] else [])
             (if visible (templates c) cur
              then [shapeMatrix L (frameNumber c) cur (the (current c))] else [])"
proof -
  from assms(2) obtain model where m: "map_of (templates c) (shapeType cur) = Some model"
    by (auto simp: wfShape_def)
  show ?thesis
  proof (cases "isAnimated model")
    case True
    then show ?thesis using assembleShape_visible[OF assms(1) m True assms(2), of L] m
      by (simp add: visible_def bufferOf_def)
  next
    case False
    then show ?thesis
      using assembleShape_hidden(1)[OF m False assms(1), of L]
        assembleShape_hidden(2)[OF m False assms(1)] m
      by (simp add: visible_def)
  qed
qed

lemma shapes_drew:
  assumes "mvValid c" "list_all (wfShape (templates c)) shapes"
  shows "\<exists>c'. forEach (assembleShape L) shapes c = Inr c' \<and>
           drew c c'
             (map (\<lambda>cur. bufferOf (templates c) (shapeType cur))
                (filter (visible (templates c)) shapes))
             (map (\<lambda>cur. shapeMatrix L (frameNumber c) cur (the (current c)))
                (filter (visible (templates c)) shapes))"
  using assms
proof (induction shapes arbitrary: c)
  case Nil
  then show ?case by (simp add: drew_refl)
next
  case (Cons cur shapes)
  from Cons.prems have w: "wfShape (templates c) cur" by simp
  from assembleShape_drew[OF Cons.prems(1) w, of L] obtain c1 where
    c1: "assembleShape L cur c = Inr c1"
    "drew c c1
       (if visible (templates c) cur then [bufferOf (templates c) (shapeType cur)] else [])
       (if visible (templates c) cur
        then [shapeMatrix L (frameNumber c) cur (the (current c))] else [])"
    by blast
  have same: "templates c1 = templates c" "frameNumber c1 = frameNumber c"
    "current c1 = current c" "mvValid c1"
    using c1(2) by (simp_all add: drew_def frame_def)
  have "list_all (wfShape (templates c1)) shapes" using Cons.prems(2) same by simp
  from Cons.IH[OF same(4) this] obtain c' where
    c': "forEach (assembleShape L) shapes c1 = Inr c'"
    "drew c1 c'
       (map (\<lambda>cur. bufferOf (templates c) (shapeType cur))
          (filter (visible (templates c)) shapes))
       (map (\<lambda>cur. shapeMatrix L (frameNumber c) cur (the (current c)))
          (filter (visible (templates c)) shapes))"
    by (auto simp: same)
  from drew_trans[OF c1(2) c'(2)] c1(1) c'(1) show ?case by auto
qed

lemma lights_drew:
  assumes "mvValid c" "list_all (wfLight (templates c)) lights"
    "k + length lights \<le> length (lightSourceData c)"
  shows "\<exists>c'. forEach (\<lambda>(i, light). assembleLight L i light)
                 (zip [k..<k + length lights] lights) c = Inr c' \<and>
           drew c c'
             (map (bufferOf (templates c)) (List.map_filter bodyOf lights))
             (map (\<lambda>light. lightMatrix L light (the (current c)))
                (filter (\<lambda>light. bodyOf light \<noteq> None) lights))"
  using assms
proof (induction lights arbitrary: c k)
  case Nil
  then show ?case by (simp add: drew_refl List.map_filter_simps)
next
  case (Cons light lights)
  have k: "k < length (lightSourceData c)" using Cons.prems(3) by simp
  from Cons.prems have w: "wfLight (templates c) light" by simp
  from assembleLight_drew[OF Cons.prems(1) k w, of L] obtain c1 where
    c1: "assembleLight L k light c = Inr c1"
    "drew c c1
       (case bodyOf light of None \<Rightarrow> [] | Some st \<Rightarrow> [bufferOf (templates c) st])
       (case bodyOf light of None \<Rightarrow> [] | Some st \<Rightarrow> [lightMatrix L light (the (current c))])"
    by blast
  have same: "templates c1 = templates c" "lightSourceData c1 = lightSourceData c"
    "current c1 = current c" "mvValid c1"
    using c1(2) by (simp_all add: drew_def frame_def)
  have w': "list_all (wfLight (templates c1)) lights" using Cons.prems(2) same by simp
  have k': "Suc k + length lights \<le> length (lightSourceData c1)" using Cons.prems(3) same by simp
  from Cons.IH[OF same(4) w' k'] obtain c' where
    c': "forEach (\<lambda>(i, light). assembleLight L i light)
           (zip [Suc k..<Suc k + length lights] lights) c1 = Inr c'"
    "drew c1 c'
       (map (bufferOf (templates c)) (List.map_filter bodyOf lights))
       (map (\<lambda>light. lightMatrix L light (the (current c)))
          (filter (\<lambda>light. bodyOf light \<noteq> None) lights))"
    by (auto simp: same)
  have z: "zip [k..<k + length (light # lights)] (light # lights) =
           (k, light) # zip [Suc k..<Suc k + length lights] lights"
    by (simp add: upt_conv_Cons del: upt_Suc)
  from drew_trans[OF c1(2) c'(2)] c1(1) c'(1) show ?case
    unfolding z by (cases "bodyOf light") (auto simp: List.map_filter_simps)
qed

subsection \<open>A render pass\<close>

lemma render_drew:
  assumes "wf c"
  shows "\<exists>c'. render L c = Inr c' \<and>
           frame c' = frame c \<and> matrixStack c' = matrixStack c \<and> mvValid c' \<and>
           current c' = Some (sceneBase L c) \<and>
           (\<forall>b. drawnFrom b (glLog c') =
                drawnFrom b (glLog c) @ map (bufferOf (templates c)) (drawnKinds c)) \<and>
           modelviewsOf (glLog c') =
             modelviewsOf (glLog c) @ drawnMatrices L c (sceneBase L c) \<and>
           passes (glLog c') = Suc (passes (glLog c))"
proof -
  let ?P = "mat4_perspective L CAMERA_FOV ASPECT_RATIO FRUSTRUM_NEAR_PLANE FRUSTRUM_FAR_PLANE"
  let ?c5 = "c\<lparr>projection := ?P,
               glLog := glLog c @ [ClearColor BLACK, Clear, UniformMatrix4fv U_projection ?P],
               modelview := Some (length (heap c)),
               heap := heap c @ [sceneBase L c]\<rparr>"
  let ?shapes = "if DEBUG then debugSceneObjectsData c else sceneObjectsData c"
  have start: "render L c = andThen (assembleLights L ?c5) (seq [assembleScene L])"
    by (simp add: render_def gl_def DEBUG_def scaleScene_def mutateModelview_def sceneBase_def)
  have v5: "mvValid ?c5" by (simp add: mvValid_def)
  have f5: "frame ?c5 = frame c" by (simp add: frame_def)
  have cur5: "current ?c5 = Some (sceneBase L c)" by (simp add: current_def)
  have wl: "list_all (wfLight (templates ?c5)) (lightSourceData ?c5)"
    using assms by (simp add: wf_def)
  from lights_drew[OF v5 wl, of 0 L] obtain c6 where
    c6: "assembleLights L ?c5 = Inr c6"
    "drew ?c5 c6 (map (bufferOf (templates c)) (List.map_filter bodyOf (lightSourceData c)))
       (map (\<lambda>light. lightMatrix L light (sceneBase L c))
          (filter (\<lambda>light. bodyOf light \<noteq> None) (lightSourceData c)))"
    by (auto simp: assembleLights_def cur5)
  have same: "templates c6 = templates c" "frameNumber c6 = frameNumber c"
    "sceneObjectsData c6 = sceneObjectsData c" "debugSceneObjectsData c6 = debugSceneObjectsData c"
    "current c6 = Some (sceneBase L c)" "mvValid c6"
    using c6(2) cur5 by (simp_all add: drew_def frame_def)
  have shapes6: "(if DEBUG then debugSceneObjectsData c6 else sceneObjectsData c6) = ?shapes"
    using same by (cases DEBUG) simp_all
  have ws: "list_all (wfShape (templates c6)) ?shapes" using assms same by (simp add: wf_def)
  from shapes_drew[OF same(6) ws, of L] obtain c' where
    c': "assembleScene L c6 = Inr c'"
    "drew c6 c' (map (\<lambda>cur. bufferOf (templates c) (shapeType cur)) (filter (visible (templates c)) ?shapes))
       (map (\<lambda>cur. shapeMatrix L (frameNumber c) cur (sceneBase L c))
          (filter (visible (templates c)) ?shapes))"
    by (auto simp: assembleScene_def same shapes6)
  have run: "render L c = Inr c'" using start c6(1) c'(1) by simp
  from drew_trans[OF c6(2) c'(2)]
  have d: "drew ?c5 c' (map (bufferOf (templates c)) (drawnKinds c)) (drawnMatrices L c (sceneBase L c))"
    by (simp add: drawnKinds_def drawnMatrices_def comp_def)
  have "frame c' = frame c" "matrixStack c' = matrixStack c" "mvValid c'"
    "current c' = Some (sceneBase L c)"
    using d f5 cur5 by (simp_all add: drew_def)
  moreover have "\<forall>b. drawnFrom b (glLog c') =
                drawnFrom b (glLog c) @ map (bufferOf (templates c)) (drawnKinds c)"
    using d by (simp add: drew_def log_append)
  moreover have "modelviewsOf (glLog c') =
             modelviewsOf (glLog c) @ drawnMatrices L c (sceneBase L c)"
    using d by (simp add: drew_def log_append)
  moreover have "passes (glLog c') = Suc (passes (glLog c))"
    using d by (simp add: drew_def passes_def)
  ultimately show ?thesis using run by blast
qed

text \<open>What well-formedness and the draw lists depend on is in the frame.\<close>

lemma wf_frame: "frame c' = frame c \<Longrightarrow> wf c' = wf c"
  by (simp add: wf_def frame_def)

subsection \<open>The state after init\<close>

lemmas data_defs =
  state0_def initialState_def somePolyhedra_def triangle_def assembleShapeTemplate_def
  lightSources_def sceneObjects_def

lemma wf_state0: "wf state0"
  by (simp add: wf_def DEBUG_def data_defs wfShape_def wfLight_def bodyOf_def
      okLightValue_def okMaterialValue_def getProp_def
      WHITE_def BLACK_def GRAY_def CHARCOAL_def YELLOW_def)

lemma state1_facts:
  "init symbolic somePolyhedra (17, [0, 1, 2]) = Inr state1"
  "frame state1 = frame state0" "matrixStack state1 = []" "mvValid state1"
  "current state1 = Some (Scaled (ViewMatrix 17 [0, 1, 2]) [1, 1, 1])"
proof -
  from render_drew[OF wf_state0, of symbolic] obtain c' where
    c': "render symbolic state0 = Inr c'" "frame c' = frame state0"
    "matrixStack c' = matrixStack state0" "mvValid c'"
    "current c' = Some (sceneBase symbolic state0)"
    by blast
  have s: "state1 = c'" using c'(1) by (simp add: state1_def init_def state0_def)
  show "init symbolic somePolyhedra (17, [0, 1, 2]) = Inr state1"
    using c'(1) s by (simp add: init_def state0_def)
  show "frame state1 = frame state0" using c'(2) s by simp
  show "matrixStack state1 = []" using c'(3) s by (simp add: state0_def initialState_def)
  show "mvValid state1" using c'(4) s by simp
  show "current state1 = Some (Scaled (ViewMatrix 17 [0, 1, 2]) [1, 1, 1])"
    using c'(5) s by (simp add: sceneBase_def symbolic_def state0_def initialState_def)
qed

lemma wf_state1: "wf state1"
  using wf_frame[OF state1_facts(2)] wf_state0 by simp

subsection \<open>The matrix stack\<close>

lemma popMatrix_empty:
  "matrixStack c = [] \<Longrightarrow> popMatrix c = Inr (c\<lparr>modelview := None\<rparr>)"
  by (simp add: popMatrix_def)

text \<open>
  C4, as the code has it: \<open>popMatrix\<close> on an empty matrix stack throws nothing. It
  completes, leaves the stack empty and leaves the current model-view matrix undefined.
\<close>

theorem popMatrix_on_empty_stack:
  "matrixStack c = [] \<Longrightarrow>
     popMatrix c = Inr (c\<lparr>modelview := None\<rparr>) \<and>
     completed (popMatrix c) \<noteq> None \<and>
     map_option matrixStack (completed (popMatrix c)) = Some [] \<and>
     map_option current (completed (popMatrix c)) = Some None"
  by (simp add: popMatrix_def completed_def current_def)

theorem popMatrix_on_empty_stack_witness:
  "matrixStack state1 = [] \<and>
   popMatrix state1 = Inr (state1\<lparr>modelview := None\<rparr>) \<and>
   completed (popMatrix state1) \<noteq> None \<and>
   map_option matrixStack (completed (popMatrix state1)) = Some [] \<and>
   map_option current (completed (popMatrix state1)) = Some None"
  using popMatrix_on_empty_stack[OF state1_facts(3)] state1_facts(3) by blast

text \<open>
  C4, as the specification has it, fails after \<open>init\<close>: the stack is empty, the current
  matrix is the scaled view matrix, and \<open>popMatrix\<close> completes with the current matrix
  undefined.
\<close>

theorem popMatrix_underflow_counterexample:
  "matrixStack state1 = [] \<and>
   current state1 = Some (Scaled (ViewMatrix 17 [0, 1, 2]) [1, 1, 1]) \<and>
   \<not> isl (popMatrix state1) \<and>
   map_option current (completed (popMatrix state1)) = Some None"
  using state1_facts(3,5) popMatrix_empty[OF state1_facts(3)]
  by (simp add: completed_def current_def)


lemma runOps_append:
  "runOps (xs @ ys) c = andThen (runOps xs c) (runOps ys)"
  by (induction xs arbitrary: c) (auto simp: andThen_def split: sum.splits)

lemma runOps_mutations:
  assumes "modelview c = Some a"
  shows "\<exists>m. runOps (map Mutate fs) c = Inr (c\<lparr>heap := (heap c)[a := m]\<rparr>)"
  using assms
proof (induction fs arbitrary: c)
  case Nil
  have "c = c\<lparr>heap := (heap c)[a := heap c ! a]\<rparr>" by simp
  then show ?case by (metis list.simps(8) runOps.simps(1))
next
  case (Cons f fs)
  let ?c1 = "c\<lparr>heap := (heap c)[a := f (heap c ! a)]\<rparr>"
  have "modelview ?c1 = Some a" using Cons.prems by simp
  from Cons.IH[OF this] obtain m where
    "runOps (map Mutate fs) ?c1 = Inr (?c1\<lparr>heap := (heap ?c1)[a := m]\<rparr>)" by blast
  then show ?case using Cons.prems by (auto simp: mutateModelview_def)
qed

text \<open>
  After the pushes, the clones are new objects on top of the stack, the first of them holds
  what the current matrix held before the first push, and the current matrix is still the
  object it was.
\<close>

lemma pushes:
  assumes "modelview c = Some a" "a < length (heap c)"
  shows "\<exists>H ps. runOps (concat (map pushThenMutate fss)) c =
            Inr (c\<lparr>heap := H, matrixStack := matrixStack c @ ps\<rparr>)
          \<and> length ps = length fss \<and> length (heap c) \<le> length H
          \<and> (fss \<noteq> [] \<longrightarrow> H ! hd ps = heap c ! a)
          \<and> (\<forall>r < length (heap c). r \<noteq> a \<longrightarrow> H ! r = heap c ! r)"
  using assms
proof (induction fss arbitrary: c)
  case Nil
  have "c = c\<lparr>heap := heap c, matrixStack := matrixStack c @ []\<rparr>" by simp
  then show ?case by (intro exI[of _ "heap c"] exI[of _ "[]"]) simp
next
  case (Cons fs fss)
  let ?n = "length (heap c)"
  let ?c1 = "c\<lparr>heap := heap c @ [heap c ! a], matrixStack := matrixStack c @ [?n]\<rparr>"
  have p: "pushMatrix c = Inr ?c1" using Cons.prems by (simp add: pushMatrix_def)
  have mv1: "modelview ?c1 = Some a" using Cons.prems by simp
  from runOps_mutations[OF mv1, of fs] obtain m where
    m: "runOps (map Mutate fs) ?c1 = Inr (?c1\<lparr>heap := (heap ?c1)[a := m]\<rparr>)" by blast
  let ?c2 = "?c1\<lparr>heap := (heap ?c1)[a := m]\<rparr>"
  have mv2: "modelview ?c2 = Some a" "a < length (heap ?c2)" using Cons.prems by simp_all
  from Cons.IH[OF mv2] obtain H ps where
    r: "runOps (concat (map pushThenMutate fss)) ?c2 =
          Inr (?c2\<lparr>heap := H, matrixStack := matrixStack ?c2 @ ps\<rparr>)"
    and l: "length ps = length fss" and g: "length (heap ?c2) \<le> length H"
    and k: "\<forall>r < length (heap ?c2). r \<noteq> a \<longrightarrow> H ! r = heap ?c2 ! r"
    by blast
  have run: "runOps (concat (map pushThenMutate (fs # fss))) c =
      Inr (c\<lparr>heap := H, matrixStack := matrixStack c @ (?n # ps)\<rparr>)"
    using p m r by (simp add: pushThenMutate_def runOps_append)
  have top: "H ! ?n = heap c ! a"
  proof -
    have "?n < length (heap ?c2)" "?n \<noteq> a" using Cons.prems by simp_all
    then have "H ! ?n = heap ?c2 ! ?n" using k by blast
    also have "\<dots> = heap c ! a" using Cons.prems by (simp add: nth_append)
    finally show ?thesis .
  qed
  have keep: "\<forall>r < length (heap c). r \<noteq> a \<longrightarrow> H ! r = heap c ! r"
  proof (intro allI impI)
    fix r assume "r < length (heap c)" "r \<noteq> a"
    then have "H ! r = heap ?c2 ! r" using k by simp
    also have "\<dots> = heap c ! r" using \<open>r < length (heap c)\<close> \<open>r \<noteq> a\<close> by (simp add: nth_append)
    finally show "H ! r = heap c ! r" .
  qed
  show ?case
    apply (intro exI[of _ H] exI[of _ "?n # ps"])
    using run l g top keep by auto
qed

text \<open>Pops take the clones back off the stack, last pushed first.\<close>

lemma pops:
  "n \<le> length ps \<Longrightarrow>
   runOps (replicate n Pop) (c\<lparr>matrixStack := st @ ps\<rparr>) =
     Inr (c\<lparr>modelview := (if n = 0 then modelview c else Some (ps ! (length ps - n))),
            matrixStack := st @ take (length ps - n) ps\<rparr>)"
proof (induction n arbitrary: c ps)
  case 0
  then show ?case by simp
next
  case (Suc n)
  then obtain qs q where ps: "ps = qs @ [q]"
    by (metis Suc_le_length_iff append_butlast_last_id list.discI)
  have n: "n \<le> length qs" using Suc.prems ps by simp
  have "popMatrix (c\<lparr>matrixStack := st @ ps\<rparr>) =
          Inr (c\<lparr>modelview := Some q, matrixStack := st @ qs\<rparr>)"
    by (simp add: popMatrix_def ps butlast_append)
  moreover have "runOps (replicate n Pop) ((c\<lparr>modelview := Some q\<rparr>)\<lparr>matrixStack := st @ qs\<rparr>) =
     Inr ((c\<lparr>modelview := Some q\<rparr>)\<lparr>modelview :=
             (if n = 0 then modelview (c\<lparr>modelview := Some q\<rparr>) else Some (qs ! (length qs - n))),
            matrixStack := st @ take (length qs - n) qs\<rparr>)"
    using Suc.IH[OF n] by blast
  ultimately show ?case using n by (auto simp: ps nth_append)
qed

text \<open>
  C5: for every number of pushes, each followed by any in-place mutations of the current
  matrix, and then as many pops, on an empty stack: the run completes, the stack is empty
  again, and the current model-view matrix holds what it held before the first push.
\<close>

theorem push_pop_round_trip:
  assumes "mvValid c" "matrixStack c = []"
  shows "\<exists>c'. runOps (pushesThenPops fss) c = Inr c' \<and>
           current c' = current c \<and> matrixStack c' = []"
proof -
  from assms(1) obtain a where a: "modelview c = Some a" "a < length (heap c)"
    by (auto simp: mvValid_def split: option.splits)
  from pushes[OF a, of fss] obtain H ps where
    r: "runOps (concat (map pushThenMutate fss)) c =
          Inr (c\<lparr>heap := H, matrixStack := matrixStack c @ ps\<rparr>)"
    and l: "length ps = length fss"
    and t: "fss \<noteq> [] \<longrightarrow> H ! hd ps = heap c ! a"
    and k: "\<forall>r < length (heap c). r \<noteq> a \<longrightarrow> H ! r = heap c ! r"
    by blast
  let ?c1 = "c\<lparr>heap := H\<rparr>"
  have p: "runOps (replicate (length fss) Pop) (?c1\<lparr>matrixStack := [] @ ps\<rparr>) =
     Inr (?c1\<lparr>modelview := (if length fss = 0 then modelview ?c1
                               else Some (ps ! (length ps - length fss))),
            matrixStack := [] @ take (length ps - length fss) ps\<rparr>)"
    using pops[where n = "length fss" and ps = ps and c = ?c1 and st = "[]"] l by simp
  show ?thesis
  proof (cases fss)
    case Nil
    then show ?thesis using assms by (simp add: pushesThenPops_def)
  next
    case (Cons fs rest)
    then have n0: "length fss \<noteq> 0" by simp
    then have ne: "ps \<noteq> []" using l by auto
    then have hd: "ps ! 0 = hd ps" by (simp add: hd_conv_nth)
    have "runOps (pushesThenPops fss) c =
            andThen (runOps (concat (map pushThenMutate fss)) c)
              (runOps (replicate (length fss) Pop))"
      by (simp add: pushesThenPops_def runOps_append)
    also have "\<dots> = runOps (replicate (length fss) Pop) (c\<lparr>heap := H, matrixStack := ps\<rparr>)"
      using r assms(2) by simp
    also have "\<dots> = Inr (c\<lparr>heap := H, modelview := Some (hd ps), matrixStack := []\<rparr>)"
      using p l n0 hd by simp
    finally have "runOps (pushesThenPops fss) c =
            Inr (c\<lparr>heap := H, modelview := Some (hd ps), matrixStack := []\<rparr>)" .
    moreover have "H ! hd ps = heap c ! a" using t Cons by simp
    ultimately show ?thesis using a(1) by (simp add: current_def)
  qed
qed

theorem push_pop_round_trip_witness:
  "mvValid state1 \<and> matrixStack state1 = [] \<and>
   (\<exists>c'. runOps (pushesThenPops
            [[\<lambda>m. Translated m [1, 0, 0]], [], [\<lambda>m. RotatedX m 1, \<lambda>m. Scaled m [2, 2, 2]]])
          state1 = Inr c' \<and>
      current c' = current state1 \<and> matrixStack c' = [])"
  using push_pop_round_trip[OF state1_facts(4) state1_facts(3)] state1_facts(3,4) by blast

subsection \<open>The start and stop commands\<close>

text \<open>
  C3: the start command while the animation runs, and the stop command while it does not,
  show the respective error message and change nothing else: the frame counter, the
  running flag, the log of WebGL calls and the pending frame callbacks are as before.
\<close>

theorem start_stop_errors:
  "(isSceneAnimated c \<longrightarrow>
      handleAnimationStart L c = Inr (c\<lparr>alerts := alerts c @ [START_BUTTON_ERROR]\<rparr>)) \<and>
   (\<not> isSceneAnimated c \<longrightarrow>
      handleAnimationStop c = Inr (c\<lparr>alerts := alerts c @ [STOP_BUTTON_ERROR]\<rparr>))"
  by (simp add: handleAnimationStart_def handleAnimationStop_def)

theorem start_stop_errors_witness:
  "isSceneAnimated (state1\<lparr>isSceneAnimated := True\<rparr>) \<and>
   handleAnimationStart symbolic (state1\<lparr>isSceneAnimated := True\<rparr>) =
     Inr (state1\<lparr>isSceneAnimated := True, alerts := [START_BUTTON_ERROR]\<rparr>) \<and>
   \<not> isSceneAnimated state0 \<and>
   handleAnimationStop state0 = Inr (state0\<lparr>alerts := [STOP_BUTTON_ERROR]\<rparr>)"
proof -
  have a: "alerts state1 = []" "alerts state0 = []" "\<not> isSceneAnimated state0"
    using frame_fields[OF state1_facts(2)] by (simp_all add: state0_def initialState_def)
  show ?thesis
    using start_stop_errors[of "state1\<lparr>isSceneAnimated := True\<rparr>" symbolic]
      start_stop_errors[of state0 symbolic] a
    by simp
qed

subsection \<open>Colours bound to three-component uniforms\<close>



subsection \<open>The effect of the event handlers\<close>

lemma wf_cong:
  assumes "templates c' = templates c" "lightSourceData c' = lightSourceData c"
    "sceneObjectsData c' = sceneObjectsData c" "debugSceneObjectsData c' = debugSceneObjectsData c"
  shows "wf c' = wf c"
  using assms by (simp add: wf_def)

text \<open>A render pass on well-formed data completes and leaves well-formed data.\<close>

lemma render_wf:
  assumes "wf c"
  shows "\<exists>c'. render L c = Inr c' \<and> wf c' \<and>
           frame c' = frame c \<and> matrixStack c' = matrixStack c \<and> mvValid c' \<and>
           current c' = Some (sceneBase L c) \<and>
           (\<forall>b. drawnFrom b (glLog c') =
                drawnFrom b (glLog c) @ map (bufferOf (templates c)) (drawnKinds c)) \<and>
           modelviewsOf (glLog c') =
             modelviewsOf (glLog c) @ drawnMatrices L c (sceneBase L c) \<and>
           passes (glLog c') = Suc (passes (glLog c))"
proof -
  from render_drew[OF assms, of L] obtain c' where
    c': "render L c = Inr c'" "frame c' = frame c" "matrixStack c' = matrixStack c" "mvValid c'"
      "current c' = Some (sceneBase L c)"
      "\<forall>b. drawnFrom b (glLog c') =
                drawnFrom b (glLog c) @ map (bufferOf (templates c)) (drawnKinds c)"
      "modelviewsOf (glLog c') = modelviewsOf (glLog c) @ drawnMatrices L c (sceneBase L c)"
      "passes (glLog c') = Suc (passes (glLog c))"
    by blast
  have "wf c'" using wf_frame[OF c'(2)] assms by simp
  then show ?thesis using c' by blast
qed

text \<open>One frame of the animation.\<close>

lemma handleFrame_running:
  assumes "wf c" "isSceneAnimated c"
  shows "\<exists>c'. handleFrame L c = Inr c' \<and> wf c' \<and> isSceneAnimated c' \<and>
           frameNumber c' = frameNumber c + 1 \<and>
           pendingFrames c' = Suc (pendingFrames c) \<and>
           sceneScale c' = sceneScale c \<and>
           templates c' = templates c \<and> lightSourceData c' = lightSourceData c \<and>
           matrixStack c' = matrixStack c \<and>
           passes (glLog c') = Suc (passes (glLog c)) \<and>
           modelviewsOf (glLog c') =
             modelviewsOf (glLog c) @
               drawnMatrices L (c\<lparr>frameNumber := frameNumber c + 1\<rparr>) (sceneBase L c)"
proof -
  let ?c1 = "c\<lparr>frameNumber := frameNumber c + 1\<rparr>"
  have w1: "wf ?c1" using assms(1) wf_cong[of ?c1 c] by simp
  from render_wf[OF w1, of L] obtain c2 where
    c2: "render L ?c1 = Inr c2" "wf c2" "frame c2 = frame ?c1" "matrixStack c2 = matrixStack ?c1"
      "modelviewsOf (glLog c2) = modelviewsOf (glLog ?c1) @ drawnMatrices L ?c1 (sceneBase L ?c1)"
      "passes (glLog c2) = Suc (passes (glLog ?c1))"
    by blast
  let ?c' = "c2\<lparr>pendingFrames := pendingFrames c2 + 1\<rparr>"
  have run: "handleFrame L c = Inr ?c'" using assms(2) c2(1) by (simp add: handleFrame_def)
  have w': "wf ?c'" using c2(2) wf_cong[of ?c' c2] by simp
  have b: "sceneBase L ?c1 = sceneBase L c" by (simp add: sceneBase_def)
  show ?thesis
    using run w' assms(2) c2(4,5,6) frame_fields[OF c2(3)] b by simp
qed

lemma tick_running:
  assumes "wf c" "isSceneAnimated c" "0 < pendingFrames c"
  shows "\<exists>c'. tick L c = Inr c' \<and> wf c' \<and> isSceneAnimated c' \<and>
           frameNumber c' = frameNumber c + 1 \<and>
           pendingFrames c' = pendingFrames c \<and>
           sceneScale c' = sceneScale c \<and>
           templates c' = templates c \<and> lightSourceData c' = lightSourceData c \<and>
           matrixStack c' = matrixStack c \<and>
           passes (glLog c') = Suc (passes (glLog c)) \<and>
           modelviewsOf (glLog c') =
             modelviewsOf (glLog c) @
               drawnMatrices L (c\<lparr>frameNumber := frameNumber c + 1\<rparr>) (sceneBase L c)"
proof -
  let ?c0 = "c\<lparr>pendingFrames := pendingFrames c - 1\<rparr>"
  have w0: "wf ?c0" "isSceneAnimated ?c0" using assms wf_cong[of ?c0 c] by simp_all
  have d: "drawnMatrices L (?c0\<lparr>frameNumber := frameNumber ?c0 + 1\<rparr>) (sceneBase L ?c0) =
           drawnMatrices L (c\<lparr>frameNumber := frameNumber c + 1\<rparr>) (sceneBase L c)"
    by (simp add: drawnMatrices_def sceneBase_def)
  from handleFrame_running[OF w0, of L] d assms(3) show ?thesis
    by (auto simp: tick_def)
qed

text \<open>A stale tick: a callback that is still pending after the animation was stopped.\<close>

lemma tick_stopped: "\<not> isSceneAnimated c \<Longrightarrow> tick L c = Inr (c\<lparr>pendingFrames := pendingFrames c - 1\<rparr>)"
  by (simp add: tick_def handleFrame_def)

lemma ticks_running:
  assumes "wf c" "isSceneAnimated c" "0 < pendingFrames c"
  shows "\<exists>c'. execAll L (replicate n Tick) c = Inr c' \<and> wf c' \<and> isSceneAnimated c' \<and>
           frameNumber c' = frameNumber c + int n \<and>
           pendingFrames c' = pendingFrames c \<and>
           passes (glLog c') = passes (glLog c) + n"
  using assms
proof (induction n arbitrary: c)
  case 0
  then show ?case by (simp add: execAll_def)
next
  case (Suc n)
  from tick_running[OF Suc.prems, of L] obtain c1 where
    c1: "tick L c = Inr c1" "wf c1" "isSceneAnimated c1" "frameNumber c1 = frameNumber c + 1"
      "pendingFrames c1 = pendingFrames c" "passes (glLog c1) = Suc (passes (glLog c))"
    by blast
  have p: "0 < pendingFrames c1" using c1(5) Suc.prems(3) by simp
  from Suc.IH[OF c1(2,3) p] obtain c' where
    "execAll L (replicate n Tick) c1 = Inr c'" "wf c'" "isSceneAnimated c'"
    "frameNumber c' = frameNumber c1 + int n" "pendingFrames c' = pendingFrames c1"
    "passes (glLog c') = passes (glLog c1) + n"
    by blast
  then show ?case using c1 by (simp add: execAll_def)
qed

lemma execAll_append:
  "execAll L (xs @ ys) c = andThen (execAll L xs c) (execAll L ys)"
  unfolding execAll_def
  by (induction xs arbitrary: c) (auto simp: andThen_def split: sum.splits)

lemma execAll_Cons: "execAll L (x # xs) c = andThen (exec L x c) (execAll L xs)"
  by (simp add: execAll_def)

lemma execAll_Nil: "execAll L [] c = Inr c"
  by (simp add: execAll_def)

text \<open>
  Start, then \<open>n\<close> ticks, then stop: the start command runs one frame itself, before the
  first tick.
\<close>

lemma start_ticks_stop:
  assumes "wf c" "\<not> isSceneAnimated c"
  shows "\<exists>c'. execAll L (Start # replicate n Tick @ [Stop]) c = Inr c' \<and>
           \<not> isSceneAnimated c' \<and>
           frameNumber c' = frameNumber c + int n + 1 \<and>
           passes (glLog c') = passes (glLog c) + n + 1"
proof -
  let ?c0 = "c\<lparr>isSceneAnimated := True\<rparr>"
  have w0: "wf ?c0" "isSceneAnimated ?c0" using assms wf_cong[of ?c0 c] by simp_all
  from handleFrame_running[OF w0, of L] obtain c1 where
    c1: "handleFrame L ?c0 = Inr c1" "wf c1" "isSceneAnimated c1"
      "frameNumber c1 = frameNumber c + 1" "pendingFrames c1 = Suc (pendingFrames c)"
      "passes (glLog c1) = Suc (passes (glLog c))"
    by auto
  have s: "exec L Start c = Inr c1" using assms(2) c1(1) by (simp add: handleAnimationStart_def)
  have p: "0 < pendingFrames c1" using c1(5) by simp
  from ticks_running[OF c1(2,3) p, of L n] obtain c2 where
    c2: "execAll L (replicate n Tick) c1 = Inr c2" "isSceneAnimated c2"
      "frameNumber c2 = frameNumber c1 + int n" "passes (glLog c2) = passes (glLog c1) + n"
    by blast
  have "execAll L (Start # replicate n Tick @ [Stop]) c = Inr (c2\<lparr>isSceneAnimated := False\<rparr>)"
    using s c2(1,2)
    by (simp add: execAll_Cons execAll_append execAll_Nil handleAnimationStop_def)
  then show ?thesis using c1 c2 by simp
qed

text \<open>A handler that changes the state and redraws it when the animation is stopped.\<close>

lemma redraw:
  assumes "wf c"
  shows "\<exists>c'. (if \<not> isSceneAnimated c then render L c else Inr c) = Inr c' \<and> wf c' \<and>
           frame c' = frame c \<and> matrixStack c' = matrixStack c \<and>
           passes (glLog c') = passes (glLog c) + (if isSceneAnimated c then 0 else 1) \<and>
           (\<not> isSceneAnimated c \<longrightarrow>
              current c' = Some (sceneBase L c) \<and>
              (\<forall>b. drawnFrom b (glLog c') =
                 drawnFrom b (glLog c) @ map (bufferOf (templates c)) (drawnKinds c)) \<and>
              modelviewsOf (glLog c') =
                modelviewsOf (glLog c) @ drawnMatrices L c (sceneBase L c))"
proof (cases "isSceneAnimated c")
  case True
  then show ?thesis using assms by simp
next
  case False
  from render_wf[OF assms, of L] False show ?thesis by auto
qed

lemma map_of_changed:
  "map_of (map (\<lambda>(k, model). if P k then (k, g model) else (k, model)) ts) x =
     map_option (\<lambda>model. if P x then g model else model) (map_of ts x)"
  by (induction ts) auto

lemma wf_templates:
  assumes "wf c"
  shows "wf (c\<lparr>templates := map (\<lambda>(k, model). if P k then (k, g model) else (k, model))
                               (templates c)\<rparr>)"
  using assms
  by (auto simp: wf_def wfShape_def wfLight_def map_of_changed list_all_iff split: option.splits)

lemma handleWheel_effect:
  assumes "wf c"
  shows "\<exists>c'. handleWheel L d c = Inr c' \<and> wf c' \<and>
           sceneScale c' = jsAdd (sceneScale c) (jsDiv (sgn d) 10) \<and>
           isSceneAnimated c' = isSceneAnimated c \<and>
           matrixStack c' = matrixStack c \<and>
           lightSourceData c' = lightSourceData c"
proof -
  let ?c1 = "c\<lparr>sceneScale := jsAdd (sceneScale c) (jsDiv (sgn d) 10)\<rparr>"
  have w1: "wf ?c1" using assms wf_cong[of ?c1 c] by simp
  from redraw[OF w1, of L] obtain c' where
    c': "(if \<not> isSceneAnimated ?c1 then render L ?c1 else Inr ?c1) = Inr c'" "wf c'"
      "frame c' = frame ?c1" "matrixStack c' = matrixStack ?c1"
    by blast
  have "handleWheel L d c = Inr c'" using c'(1) by (simp add: handleWheel_def Let_def)
  then show ?thesis using c'(2,4) frame_fields[OF c'(3)] by simp
qed

lemma handleDrag_effect:
  assumes "wf c"
  shows "\<exists>c'. handleDrag L r c = Inr c' \<and> wf c' \<and> matrixStack c' = matrixStack c \<and>
           sceneScale c' = sceneScale c \<and> lightSourceData c' = lightSourceData c"
proof -
  let ?c1 = "c\<lparr>rotator := r\<rparr>"
  have w1: "wf ?c1" using assms wf_cong[of ?c1 c] by simp
  from redraw[OF w1, of L] obtain c' where
    c': "(if \<not> isSceneAnimated ?c1 then render L ?c1 else Inr ?c1) = Inr c'" "wf c'"
      "matrixStack c' = matrixStack ?c1" "frame c' = frame ?c1"
    by blast
  have "handleDrag L r c = Inr c'" using c'(1) by (simp add: handleDrag_def Let_def)
  then show ?thesis using c'(2,3) frame_fields[OF c'(4)] by simp
qed

lemma toggleShape_effect:
  assumes "wf c"
  shows "\<exists>c'. handleSceneElementCheckboxChanges L name c = Inr c' \<and> wf c' \<and>
           matrixStack c' = matrixStack c \<and>
           templates c' = map (\<lambda>(k, model). if k = name
                                        then (k, model\<lparr>isAnimated := \<not> isAnimated model\<rparr>)
                                        else (k, model)) (templates c) \<and>
           lightSourceData c' = lightSourceData c \<and>
           sceneObjectsData c' = sceneObjectsData c \<and>
           debugSceneObjectsData c' = debugSceneObjectsData c \<and>
           (\<not> isSceneAnimated c \<longrightarrow>
              (\<forall>b. drawnFrom b (glLog c') =
                 drawnFrom b (glLog c) @ map (bufferOf (templates c')) (drawnKinds c'))) \<and>
           sceneScale c' = sceneScale c"
proof -
  let ?c1 = "c\<lparr>templates := map (\<lambda>(k, model). if k = name
                                        then (k, model\<lparr>isAnimated := \<not> isAnimated model\<rparr>)
                                        else (k, model)) (templates c)\<rparr>"
  have w1: "wf ?c1" using wf_templates[OF assms] by simp
  from redraw[OF w1, of L] obtain c' where
    c': "(if \<not> isSceneAnimated ?c1 then render L ?c1 else Inr ?c1) = Inr c'" "wf c'"
      "frame c' = frame ?c1" "matrixStack c' = matrixStack ?c1"
      "\<not> isSceneAnimated ?c1 \<longrightarrow>
         (\<forall>b. drawnFrom b (glLog c') =
            drawnFrom b (glLog ?c1) @ map (bufferOf (templates ?c1)) (drawnKinds ?c1))"
    by blast
  have k: "drawnKinds c' = drawnKinds ?c1"
    using frame_fields[OF c'(3)] by (simp add: drawnKinds_def)
  have "handleSceneElementCheckboxChanges L name c = Inr c'"
    using c'(1) by (simp add: handleSceneElementCheckboxChanges_def Let_def)
  then show ?thesis using c'(2,4,5) frame_fields[OF c'(3)] k by simp
qed

lemma getProp_setProp: "getProp (setProp obj p v) q = (if q = p then v else getProp obj q)"
  by (induction obj) (auto simp: getProp_def)

lemma keys_setProp: "fst ` set (setProp obj p v) = insert p (fst ` set obj)"
  by (induction obj) force+

lemma wfLight_toggled:
  assumes "wfLight ts light" "lightsUniforms light = Some lu"
  shows "wfLight ts (light\<lparr>lightsUniforms :=
            Some (setProp lu ''enabled'' (xor1 (getProp lu ''enabled'')))\<rparr>)"
proof -
  let ?lu = "setProp lu ''enabled'' (xor1 (getProp lu ''enabled''))"
  have old: "\<forall>key \<in> fst ` set lu. okLightValue key (getProp lu key)"
    using assms by (auto simp: wfLight_def list_all_iff)
  have "\<forall>key \<in> fst ` set ?lu. okLightValue key (getProp ?lu key)"
  proof
    fix key assume "key \<in> fst ` set ?lu"
    then have k: "key = ''enabled'' \<or> key \<in> fst ` set lu" by (simp add: keys_setProp)
    show "okLightValue key (getProp ?lu key)"
    proof (cases "key = ''enabled''")
      case True
      then show ?thesis by (simp add: getProp_setProp okLightValue_def xor1_def)
    next
      case False
      then have "key \<in> fst ` set lu" "getProp ?lu key = getProp lu key"
        using k by (simp_all add: getProp_setProp)
      then show ?thesis using old by auto
    qed
  qed
  then have a: "list_all (\<lambda>key. okLightValue key (getProp ?lu key)) (map fst ?lu)"
    by (simp add: list_all_iff)
  have b: "getProp ?lu ''position'' = getProp lu ''position''" by (simp add: getProp_setProp)
  show ?thesis using assms a b
    by (simp add: wfLight_def bodyOf_def split: option.splits)
qed

lemma toggleLight_total:
  assumes "wf c" "i < length (lightSourceData c)" "lightsUniforms (lightSourceData c ! i) = Some lu"
  shows "\<exists>c'. handleLightSourceCheckboxChanges L i c = Inr c' \<and> wf c' \<and>
           matrixStack c' = matrixStack c \<and>
           lightSourceData c' =
             (lightSourceData c)
               [i := (lightSourceData c ! i)\<lparr>lightsUniforms :=
                        Some (setProp lu ''enabled'' (xor1 (getProp lu ''enabled'')))\<rparr>] \<and>
           templates c' = templates c \<and> isSceneAnimated c' = isSceneAnimated c \<and>
           sceneScale c' = sceneScale c"
proof -
  let ?l = "lightSourceData c ! i"
  let ?l' = "?l\<lparr>lightsUniforms := Some (setProp lu ''enabled'' (xor1 (getProp lu ''enabled'')))\<rparr>"
  let ?c1 = "c\<lparr>lightSourceData := (lightSourceData c)[i := ?l']\<rparr>"
  have "wfLight (templates c) ?l" using assms(1,2) by (simp add: wf_def list_all_length)
  then have "wfLight (templates c) ?l'" using wfLight_toggled assms(3) by blast
  then have w1: "wf ?c1"
    using assms(1) set_update_subset_insert[of "lightSourceData c" i ?l']
    by (auto simp: wf_def list_all_iff)
  from redraw[OF w1, of L] obtain d where
    d: "(if \<not> isSceneAnimated ?c1 then render L ?c1 else Inr ?c1) = Inr d" "wf d"
      "frame d = frame ?c1" "matrixStack d = matrixStack ?c1"
    by blast
  have "handleLightSourceCheckboxChanges L i c = Inr d"
    using d(1) assms(2,3) by (simp add: handleLightSourceCheckboxChanges_def Let_def)
  then show ?thesis using d(2,4) frame_fields[OF d(3)] by simp
qed

lemma toggleLight_effect:
  assumes "wf c" "handleLightSourceCheckboxChanges L i c = Inr c'"
  shows "wf c' \<and> matrixStack c' = matrixStack c"
proof (cases "i < length (lightSourceData c)")
  case False
  then show ?thesis using assms by (simp add: handleLightSourceCheckboxChanges_def)
next
  case True
  from assms(2) True obtain lu where lu: "lightsUniforms (lightSourceData c ! i) = Some lu"
    by (auto simp: handleLightSourceCheckboxChanges_def Let_def split: option.splits)
  from toggleLight_total[OF assms(1) True lu, of L] assms(2) show ?thesis by auto
qed

text \<open>The loop of \<open>handleReset\<close> makes every template visible and changes no light.\<close>

lemma fold_resetTemplate:
  "templates (fold resetTemplate es c) =
     map (\<lambda>(k, model). if k \<in> fst ` set es then (k, model\<lparr>isAnimated := True\<rparr>) else (k, model))
       (templates c) \<and>
   heap (fold resetTemplate es c) = heap c \<and>
   modelview (fold resetTemplate es c) = modelview c \<and>
   matrixStack (fold resetTemplate es c) = matrixStack c \<and>
   lightSourceData (fold resetTemplate es c) = lightSourceData c \<and>
   sceneObjectsData (fold resetTemplate es c) = sceneObjectsData c \<and>
   debugSceneObjectsData (fold resetTemplate es c) = debugSceneObjectsData c \<and>
   isSceneAnimated (fold resetTemplate es c) = isSceneAnimated c \<and>
   frameNumber (fold resetTemplate es c) = frameNumber c \<and>
   sceneScale (fold resetTemplate es c) = sceneScale c \<and>
   rotator (fold resetTemplate es c) = rotator c \<and>
   glLog (fold resetTemplate es c) = glLog c \<and>
   pendingFrames (fold resetTemplate es c) = pendingFrames c \<and>
   alerts (fold resetTemplate es c) = alerts c"
proof (induction es arbitrary: c)
  case Nil
  then show ?case by (simp add: case_prod_unfold)
next
  case (Cons e es)
  have "map (\<lambda>(k, model). if k \<in> fst ` set es then (k, model\<lparr>isAnimated := True\<rparr>) else (k, model))
          (map (\<lambda>(k, model). if k = fst e then (k, model\<lparr>isAnimated := True\<rparr>) else (k, model))
             (templates c)) =
        map (\<lambda>(k, model). if k \<in> fst ` set (e # es) then (k, model\<lparr>isAnimated := True\<rparr>)
                            else (k, model)) (templates c)"
    by (auto simp: case_prod_unfold)
  then show ?case using Cons.IH[of "resetTemplate e c"] by (simp add: resetTemplate_def)
qed

lemma handleReset_effect:
  assumes "wf c"
  shows "\<exists>c'. handleReset L c = Inr c' \<and> wf c' \<and>
           \<not> isSceneAnimated c' \<and> frameNumber c' = 0 \<and> sceneScale c' = 1 \<and>
           templates c' = map (\<lambda>(k, model). (k, model\<lparr>isAnimated := True\<rparr>)) (templates c) \<and>
           lightSourceData c' = lightSourceData c \<and>
           pendingFrames c' = pendingFrames c \<and>
           matrixStack c' = matrixStack c \<and>
           passes (glLog c') = Suc (passes (glLog c))"
proof -
  let ?c1 = "c\<lparr>rotator := setView L 17 [0, 1, 2] (rotator c), frameNumber := 0,
                sceneScale := 1, isSceneAnimated := False\<rparr>"
  let ?c2 = "fold resetTemplate (templates ?c1) ?c1"
  note f = fold_resetTemplate[of "templates ?c1" ?c1]
  have t2: "templates ?c2 = map (\<lambda>(k, model). (k, model\<lparr>isAnimated := True\<rparr>)) (templates c)"
  proof -
    have "templates ?c2 =
        map (\<lambda>(k, model). if k \<in> fst ` set (templates c) then (k, model\<lparr>isAnimated := True\<rparr>)
                            else (k, model)) (templates c)"
      using f by simp
    also have "\<dots> = map (\<lambda>(k, model). (k, model\<lparr>isAnimated := True\<rparr>)) (templates c)"
      by (rule map_cong) (auto simp: rev_image_eqI)
    finally show ?thesis .
  qed
  have t2': "templates ?c2 = map (\<lambda>(k, model). if True then (k, model\<lparr>isAnimated := True\<rparr>)
                                                else (k, model)) (templates c)"
    using t2 by simp
  have "wf (c\<lparr>templates := templates ?c2\<rparr>)"
    unfolding t2' using wf_templates[OF assms, of "\<lambda>k. True"] by simp
  then have w2: "wf ?c2" using f wf_cong[of ?c2 "c\<lparr>templates := templates ?c2\<rparr>"] by simp
  from render_wf[OF w2, of L] obtain c' where
    c': "render L ?c2 = Inr c'" "wf c'" "frame c' = frame ?c2" "matrixStack c' = matrixStack ?c2"
      "passes (glLog c') = Suc (passes (glLog ?c2))"
    by blast
  have "handleReset L c = Inr c'" using c'(1) by (simp add: handleReset_def Let_def)
  then show ?thesis using c'(2,4,5) frame_fields[OF c'(3)] f t2 by simp
qed

text \<open>Every command keeps the data well-formed and leaves the stack as it found it.\<close>

lemma exec_keeps:
  assumes "wf c" "exec L cmd c = Inr c'"
  shows "wf c' \<and> matrixStack c' = matrixStack c"
proof (cases cmd)
  case Start
  show ?thesis
  proof (cases "isSceneAnimated c")
    case True
    then show ?thesis using assms Start wf_cong[of c' c]
      by (auto simp: handleAnimationStart_def)
  next
    case False
    let ?c0 = "c\<lparr>isSceneAnimated := True\<rparr>"
    have "wf ?c0" "isSceneAnimated ?c0" using assms(1) wf_cong[of ?c0 c] by simp_all
    from handleFrame_running[OF this, of L] assms(2) Start False show ?thesis
      by (auto simp: handleAnimationStart_def)
  qed
next
  case Stop
  then show ?thesis using assms wf_cong[of c' c]
    by (auto simp: handleAnimationStop_def split: if_splits)
next
  case Reset
  then show ?thesis using assms handleReset_effect[OF assms(1), of L] by auto
next
  case Tick
  show ?thesis
  proof (cases "isSceneAnimated c \<and> 0 < pendingFrames c")
    case True
    then show ?thesis using tick_running[OF assms(1), of L] assms(2) Tick by auto
  next
    case False
    then show ?thesis using assms Tick wf_cong[of c' c]
      by (auto simp: tick_def handleFrame_def split: if_splits)
  qed
next
  case (ToggleShape name)
  then show ?thesis using assms toggleShape_effect[OF assms(1), of L name] by auto
next
  case (ToggleLight i)
  then show ?thesis using assms toggleLight_effect[OF assms(1), of L i c'] by simp
next
  case (Wheel d)
  then show ?thesis using assms handleWheel_effect[OF assms(1), of L d] by auto
next
  case (Drag r)
  then show ?thesis using assms handleDrag_effect[OF assms(1), of L r] by auto
qed

lemma execAll_keeps:
  assumes "wf c" "execAll L cmds c = Inr c'"
  shows "wf c' \<and> matrixStack c' = matrixStack c"
  using assms
proof (induction cmds arbitrary: c)
  case Nil
  then show ?case by (simp add: execAll_Nil)
next
  case (Cons cmd cmds)
  from Cons.prems(2) obtain c1 where
    c1: "exec L cmd c = Inr c1" "execAll L cmds c1 = Inr c'"
    by (auto simp: execAll_Cons andThen_def split: sum.splits)
  from exec_keeps[OF Cons.prems(1) c1(1)] Cons.IH[OF _ c1(2)] show ?case by simp
qed

subsection \<open>The data of the state after init\<close>

lemma state1_data:
  "templates state1 = assembleShapeTemplates 0 somePolyhedra"
  "lightSourceData state1 = lightSources"
  "sceneObjectsData state1 = sceneObjects"
  "isSceneAnimated state1 = False" "frameNumber state1 = 0" "sceneScale state1 = 1"
  "pendingFrames state1 = 0" "alerts state1 = []" "rotator state1 = (17, [0, 1, 2])"
  using frame_fields[OF state1_facts(2)] by (simp_all add: state0_def initialState_def)

subsection \<open>The balance of the matrix stack\<close>

text \<open>
  C6: a render pass on well-formed data completes and leaves the matrix stack as it found
  it; so does the step of the light pass for each light and the step of the shape pass
  for each shape, visible or hidden, each before the next instance is processed; and
  from an empty stack, the stack is empty after every run of commands, hence at the end
  of every render pass.
\<close>

theorem stack_balanced:
  assumes "wf c"
  shows "(\<exists>c'. render L c = Inr c' \<and> matrixStack c' = matrixStack c) \<and>
         (\<forall>d i light. mvValid d \<and> i < length (lightSourceData d) \<and> wfLight (templates d) light \<longrightarrow>
            (\<exists>d'. assembleLight L i light d = Inr d' \<and> matrixStack d' = matrixStack d)) \<and>
         (\<forall>d cur. mvValid d \<and> wfShape (templates d) cur \<longrightarrow>
            (\<exists>d'. assembleShape L cur d = Inr d' \<and> matrixStack d' = matrixStack d)) \<and>
         (\<forall>cmds c'. matrixStack c = [] \<and> execAll L cmds c = Inr c' \<longrightarrow> matrixStack c' = [])"
proof (intro conjI allI impI)
  show "\<exists>c'. render L c = Inr c' \<and> matrixStack c' = matrixStack c"
    using render_wf[OF assms, of L] by blast
next
  fix d :: "('a, 'b, 'c) ctx" and i light
  assume "mvValid d \<and> i < length (lightSourceData d) \<and> wfLight (templates d) light"
  then show "\<exists>d'. assembleLight L i light d = Inr d' \<and> matrixStack d' = matrixStack d"
    using assembleLight_drew[of d i light L] by (auto simp: drew_def)
next
  fix d :: "('a, 'b, 'c) ctx" and cur
  assume "mvValid d \<and> wfShape (templates d) cur"
  then show "\<exists>d'. assembleShape L cur d = Inr d' \<and> matrixStack d' = matrixStack d"
    using assembleShape_drew[of d cur L] by (auto simp: drew_def)
next
  fix cmds c'
  assume "matrixStack c = [] \<and> execAll L cmds c = Inr c'"
  then show "matrixStack c' = []" using execAll_keeps[OF assms, of L cmds c'] by simp
qed

lemma wfLight_sun: "wfLight (templates state1) (lightSources ! 0)"
  using wf_state1 by (simp add: wf_def state1_data lightSources_def)

lemma wfShape_first: "wfShape (templates state1) (sceneObjects ! 1)"
  using wf_state1 by (simp add: wf_def DEBUG_def state1_data sceneObjects_def)

theorem stack_balanced_witness:
  "wf state1 \<and> matrixStack state1 = [] \<and>
   (\<exists>c'. render symbolic state1 = Inr c' \<and> matrixStack c' = []) \<and>
   (mvValid state1 \<and> 0 < length (lightSourceData state1) \<and>
      wfLight (templates state1) (lightSources ! 0)) \<and>
   (\<exists>d'. assembleLight symbolic 0 (lightSources ! 0) state1 = Inr d' \<and> matrixStack d' = []) \<and>
   wfShape (templates state1) (sceneObjects ! 1) \<and>
   (\<exists>d'. assembleShape symbolic (sceneObjects ! 1) state1 = Inr d' \<and> matrixStack d' = []) \<and>
   (\<exists>c'. execAll symbolic [Start, Tick, Stop] state1 = Inr c' \<and> matrixStack c' = [])"
proof -
  note s = stack_balanced[OF wf_state1, of symbolic]
  have l: "0 < length (lightSourceData state1)" by (simp add: state1_data lightSources_def)
  from start_ticks_stop[OF wf_state1, of symbolic 1] obtain c' where
    r: "execAll symbolic [Start, Tick, Stop] state1 = Inr c'" by (auto simp: state1_data)
  have "matrixStack c' = []" using s r state1_facts(3) by blast
  then have e: "\<exists>c'. execAll symbolic [Start, Tick, Stop] state1 = Inr c' \<and> matrixStack c' = []"
    using r by blast
  have a: "\<exists>c'. render symbolic state1 = Inr c' \<and> matrixStack c' = []"
    using s state1_facts(3) by simp
  have b: "\<exists>d'. assembleLight symbolic 0 (lightSources ! 0) state1 = Inr d' \<and> matrixStack d' = []"
    using s state1_facts(3,4) l wfLight_sun by metis
  have c: "\<exists>d'. assembleShape symbolic (sceneObjects ! 1) state1 = Inr d' \<and> matrixStack d' = []"
    using s state1_facts(3,4) wfShape_first by metis
  show ?thesis using wf_state1 state1_facts(3,4) l wfLight_sun wfShape_first a b c e by blast
qed

subsection \<open>The order of the transforms of a shape\<close>

text \<open>
  C8: a visible shape drawn at frame \<open>F\<close> is drawn with the current model-view matrix
  \<open>B\<close> transformed in this order: a rotation of \<open>-F\<close> degrees about the axis
  \<open>[0, 1, 0]\<close>, the translation of the shape, for each axis of its rotation map in the
  order of the map a rotation of \<open>F\<close> times the declared rate in degrees about that axis
  (and none about an axis that is not declared), and the scaling of the shape.
\<close>

theorem shape_transform_order:
  assumes "mvValid c" "current c = Some B" "wfShape (templates c) cur"
    "visible (templates c) cur"
  shows "\<exists>c'. assembleShape L cur c = Inr c' \<and>
           modelviewsOf (glLog c') =
             modelviewsOf (glLog c) @
               [mat4_scale L
                  (foldl (\<lambda>m (key, v).
                            mat4_rotateAxis L key m (degrees (of_int (frameNumber c) * v)))
                     (mat4_translate L
                        (mat4_rotate L B (degrees (- of_int (frameNumber c))) [0, 1, 0])
                        (translate cur))
                     (rotate cur))
                  (scale cur)]"
  using assembleShape_drew[OF assms(1,3), of L] assms(2,4)
  by (auto simp: drew_def shapeMatrix_def)

theorem shape_transform_order_witness:
  "mvValid (state1\<lparr>frameNumber := 30\<rparr>) \<and>
   current (state1\<lparr>frameNumber := 30\<rparr>) = Some (Scaled (ViewMatrix 17 [0, 1, 2]) [1, 1, 1]) \<and>
   wfShape (templates (state1\<lparr>frameNumber := 30\<rparr>)) (sceneObjects ! 1) \<and>
   visible (templates (state1\<lparr>frameNumber := 30\<rparr>)) (sceneObjects ! 1) \<and>
   (\<exists>c'. assembleShape symbolic (sceneObjects ! 1) (state1\<lparr>frameNumber := 30\<rparr>) = Inr c' \<and>
      modelviewsOf (glLog c') =
        modelviewsOf (glLog (state1\<lparr>frameNumber := 30\<rparr>)) @
          [Scaled
             (RotatedZ
                (RotatedY
                   (RotatedX
                      (Translated
                         (Rotated (Scaled (ViewMatrix 17 [0, 1, 2]) [1, 1, 1]) (degrees (- 30))
                            [0, 1, 0])
                         [1, 0, 0])
                      (degrees 0))
                   (degrees 150))
                (degrees (- 30)))
             [0.3, 0.3, 0.3]])"
proof -
  let ?c = "state1\<lparr>frameNumber := 30\<rparr>"
  have v: "mvValid ?c" using state1_facts(4) by (auto simp: mvValid_def split: option.splits)
  have b: "current ?c = Some (Scaled (ViewMatrix 17 [0, 1, 2]) [1, 1, 1])"
    using state1_facts(5) by (auto simp: current_def split: option.splits)
  have w: "wfShape (templates ?c) (sceneObjects ! 1)" using wfShape_first by simp
  have s: "visible (templates ?c) (sceneObjects ! 1)"
    by (simp add: visible_def state1_data sceneObjects_def somePolyhedra_def triangle_def
        assembleShapeTemplate_def)
  from shape_transform_order[OF v b w s, of symbolic] v b w s show ?thesis
    by (simp add: sceneObjects_def symbolic_def)
qed

subsection \<open>The frame driver\<close>

text \<open>
  C7, as the code has it: while the animation runs, a scheduled tick increments the frame
  counter by one, performs one render pass with the new frame number and leaves one
  callback pending for the next tick. The start command runs one such frame itself
  before the first tick, so that start, \<open>n\<close> ticks and stop leave the frame counter
  \<open>n + 1\<close> higher, after \<open>n + 1\<close> render passes, and leave the animation stopped.
\<close>

theorem frame_ticks:
  assumes "wf c"
  shows "(isSceneAnimated c \<and> 0 < pendingFrames c \<longrightarrow>
            (\<exists>c'. tick L c = Inr c' \<and> isSceneAnimated c' \<and>
               frameNumber c' = frameNumber c + 1 \<and>
               passes (glLog c') = Suc (passes (glLog c)) \<and>
               modelviewsOf (glLog c') =
                 modelviewsOf (glLog c) @
                   drawnMatrices L (c\<lparr>frameNumber := frameNumber c + 1\<rparr>) (sceneBase L c) \<and>
               pendingFrames c' = pendingFrames c)) \<and>
         (\<not> isSceneAnimated c \<longrightarrow>
            (\<exists>c'. execAll L (Start # replicate n Tick @ [Stop]) c = Inr c' \<and>
               \<not> isSceneAnimated c' \<and>
               frameNumber c' = frameNumber c + int n + 1 \<and>
               passes (glLog c') = passes (glLog c) + n + 1))"
proof (intro conjI impI)
  assume "isSceneAnimated c \<and> 0 < pendingFrames c"
  then show "\<exists>c'. tick L c = Inr c' \<and> isSceneAnimated c' \<and>
               frameNumber c' = frameNumber c + 1 \<and>
               passes (glLog c') = Suc (passes (glLog c)) \<and>
               modelviewsOf (glLog c') =
                 modelviewsOf (glLog c) @
                   drawnMatrices L (c\<lparr>frameNumber := frameNumber c + 1\<rparr>) (sceneBase L c) \<and>
               pendingFrames c' = pendingFrames c"
    using tick_running[OF assms, of L] by blast
next
  assume "\<not> isSceneAnimated c"
  then show "\<exists>c'. execAll L (Start # replicate n Tick @ [Stop]) c = Inr c' \<and>
               \<not> isSceneAnimated c' \<and>
               frameNumber c' = frameNumber c + int n + 1 \<and>
               passes (glLog c') = passes (glLog c) + n + 1"
    using start_ticks_stop[OF assms, of L n] by blast
qed

theorem frame_ticks_witness:
  "wf state1 \<and> \<not> isSceneAnimated state1 \<and> frameNumber state1 = 0 \<and>
   (\<exists>c'. execAll symbolic (Start # replicate 10 Tick @ [Stop]) state1 = Inr c' \<and>
      \<not> isSceneAnimated c' \<and> frameNumber c' = 11 \<and>
      passes (glLog c') = passes (glLog state1) + 11) \<and>
   wf (state1\<lparr>isSceneAnimated := True, pendingFrames := 1\<rparr>) \<and>
   (\<exists>c'. tick symbolic (state1\<lparr>isSceneAnimated := True, pendingFrames := 1\<rparr>) = Inr c' \<and>
      isSceneAnimated c' \<and> frameNumber c' = 1 \<and> pendingFrames c' = 1 \<and>
      passes (glLog c') = Suc (passes (glLog state1)))"
proof -
  let ?c = "state1\<lparr>isSceneAnimated := True, pendingFrames := 1\<rparr>"
  have w: "wf ?c" using wf_state1 wf_cong[of ?c state1] by simp
  show ?thesis
    using frame_ticks[OF wf_state1, of symbolic 10] frame_ticks[OF w, of symbolic] wf_state1 w
    by (auto simp: state1_data)
qed

text \<open>
  C7, as the specification has it, fails after \<open>init\<close>: from frame counter 0, start, ten
  ticks and stop leave the frame counter at 11.
\<close>

theorem ten_ticks_counterexample:
  "frameNumber state1 = 0 \<and>
   map_option (\<lambda>c. (frameNumber c, isSceneAnimated c))
     (completed (execAll symbolic (Start # replicate 10 Tick @ [Stop]) state1)) =
   Some (11, False)"
  using start_ticks_stop[OF wf_state1, of symbolic 10]
  by (auto simp: state1_data completed_def)

subsection \<open>The zoom factor\<close>

text \<open>How \<open>binary64\<close> rounds a number whose binade is known.\<close>

lemma pow2_pos: "0 < pow2 e"
  by (simp add: pow2_def)

lemma pow2_mono: "a \<le> b \<Longrightarrow> pow2 a \<le> pow2 b"
  by (simp add: pow2_def powr_int[symmetric])

lemma binadeFrom_eq:
  assumes "pow2 e \<le> x" "x < pow2 (e + 1)" "- 1022 \<le> e" "e \<le> e0"
  shows "binadeFrom x e0 = e"
  using assms(4)
proof (induction "nat (e0 - e)" arbitrary: e0)
  case 0
  then have "e0 = e" by simp
  then show ?case using assms(1) binadeFrom.simps[of x e] by simp
next
  case (Suc n)
  then have lt: "e + 1 \<le> e0" by linarith
  have "x < pow2 e0" using assms(2) pow2_mono[OF lt] by linarith
  then have "binadeFrom x e0 = binadeFrom x (e0 - 1)"
    using lt assms(3) binadeFrom.simps[of x e0] by simp
  moreover have "binadeFrom x (e0 - 1) = e" using Suc(1)[of "e0 - 1"] Suc(2) lt by simp
  ultimately show ?case by simp
qed

lemma binary64_eval:
  assumes "pow2 e \<le> \<bar>x\<bar>" "\<bar>x\<bar> < pow2 (e + 1)" "- 1022 \<le> e" "e \<le> 1023"
  shows "binary64 x = of_int (roundTiesToEven (x / pow2 (e - 52))) * pow2 (e - 52)"
proof -
  have "x \<noteq> 0" using assms(1) pow2_pos[of e] by auto
  then show ?thesis
    using binadeFrom_eq[OF assms] by (simp add: binary64_def exponent_def Let_def)
qed

text \<open>
  The tenth that a wheel event adds is the number \<open>3602879701896397 / 2^55\<close>, a little
  more than \<open>1 / 10\<close>. From the factor 1, one zoom-in makes \<open>1.1\<close> and a second one
  \<open>1.2000000000000002\<close>; ten zoom-outs leave \<open>5 / 2^55\<close>, which is about
  \<open>1.39e-16\<close>, and the eleventh makes \<open>-0.09999999999999987\<close>.
\<close>

lemma zoom_values:
  "zoomAfter (replicate 10 (Wheel (- 120))) 1 = 5 / 2 ^ 55"
  "zoomAfter (replicate 11 (Wheel (- 120))) 1 = - (450359962737049 / 2 ^ 52)"
  "zoomAfter [Wheel (- 120)] 1 = 8106479329266893 / 2 ^ 53"
  "zoomAfter [Wheel 120] 1 = 2476979795053773 / 2 ^ 51"
  "zoomAfter [Wheel 120] (2476979795053773 / 2 ^ 51) = 1351079888211149 / 2 ^ 50"
proof -
  let ?t = "3602879701896397 / 2 ^ 55 :: real"
  have t: "jsDiv 1 10 = ?t"
    using binary64_eval[of "- 4" "1 / 10"]
    by (simp add: jsDiv_def pow2_def roundTiesToEven_def Let_def)
  have t': "jsDiv (- 1) 10 = - ?t"
    using binary64_eval[of "- 4" "- 1 / 10"]
    by (simp add: jsDiv_def pow2_def roundTiesToEven_def Let_def)
  have o1: "jsAdd 1 (- ?t) = 8106479329266893 / 2 ^ 53"
    using binary64_eval[of "- 1" "1 + - ?t"]
    by (simp add: jsAdd_def pow2_def roundTiesToEven_def Let_def)
  have o2: "jsAdd (8106479329266893 / 2 ^ 53) (- ?t) = 3602879701896397 / 2 ^ 52"
    using binary64_eval[of "- 1" "8106479329266893 / 2 ^ 53 + - ?t"]
    by (simp add: jsAdd_def pow2_def roundTiesToEven_def Let_def)
  have o3: "jsAdd (3602879701896397 / 2 ^ 52) (- ?t) = 6305039478318695 / 2 ^ 53"
    using binary64_eval[of "- 1" "3602879701896397 / 2 ^ 52 + - ?t"]
    by (simp add: jsAdd_def pow2_def roundTiesToEven_def Let_def)
  have o4: "jsAdd (6305039478318695 / 2 ^ 53) (- ?t) = 1351079888211149 / 2 ^ 51"
    using binary64_eval[of "- 1" "6305039478318695 / 2 ^ 53 + - ?t"]
    by (simp add: jsAdd_def pow2_def roundTiesToEven_def Let_def)
  have o5: "jsAdd (1351079888211149 / 2 ^ 51) (- ?t) = 4503599627370497 / 2 ^ 53"
    using binary64_eval[of "- 1" "1351079888211149 / 2 ^ 51 + - ?t"]
    by (simp add: jsAdd_def pow2_def roundTiesToEven_def Let_def)
  have o6: "jsAdd (4503599627370497 / 2 ^ 53) (- ?t) = 1801439850948199 / 2 ^ 52"
    using binary64_eval[of "- 2" "4503599627370497 / 2 ^ 53 + - ?t"]
    by (simp add: jsAdd_def pow2_def roundTiesToEven_def Let_def)
  have o7: "jsAdd (1801439850948199 / 2 ^ 52) (- ?t) = 2702159776422299 / 2 ^ 53"
    using binary64_eval[of "- 2" "1801439850948199 / 2 ^ 52 + - ?t"]
    by (simp add: jsAdd_def pow2_def roundTiesToEven_def Let_def)
  have o8: "jsAdd (2702159776422299 / 2 ^ 53) (- ?t) = 7205759403792799 / 2 ^ 55"
    using binary64_eval[of "- 3" "2702159776422299 / 2 ^ 53 + - ?t"]
    by (simp add: jsAdd_def pow2_def roundTiesToEven_def Let_def)
  have o9: "jsAdd (7205759403792799 / 2 ^ 55) (- ?t) = 1801439850948201 / 2 ^ 54"
    using binary64_eval[of "- 4" "7205759403792799 / 2 ^ 55 + - ?t"]
    by (simp add: jsAdd_def pow2_def roundTiesToEven_def Let_def)
  have o10: "jsAdd (1801439850948201 / 2 ^ 54) (- ?t) = 5 / 2 ^ 55"
    using binary64_eval[of "- 53" "1801439850948201 / 2 ^ 54 + - ?t"]
    by (simp add: jsAdd_def pow2_def roundTiesToEven_def Let_def)
  have o11: "jsAdd (5 / 2 ^ 55) (- ?t) = - (450359962737049 / 2 ^ 52)"
    using binary64_eval[of "- 4" "5 / 2 ^ 55 + - ?t"]
    by (simp add: jsAdd_def pow2_def roundTiesToEven_def Let_def)
  have i1: "jsAdd 1 ?t = 2476979795053773 / 2 ^ 51"
    using binary64_eval[of "0" "1 + ?t"]
    by (simp add: jsAdd_def pow2_def roundTiesToEven_def Let_def)
  have i2: "jsAdd (2476979795053773 / 2 ^ 51) ?t = 1351079888211149 / 2 ^ 50"
    using binary64_eval[of "0" "2476979795053773 / 2 ^ 51 + ?t"]
    by (simp add: jsAdd_def pow2_def roundTiesToEven_def Let_def)
  have sg: "sgn (- 120 :: real) = - 1" "sgn (120 :: real) = 1" by simp_all
  have r10: "replicate 10 x = [x, x, x, x, x, x, x, x, x, x]" for x :: "'r command"
    by (simp add: eval_nat_numeral)
  have r11: "replicate 11 x = [x, x, x, x, x, x, x, x, x, x, x]" for x :: "'r command"
    by (simp add: eval_nat_numeral)
  show "zoomAfter (replicate 10 (Wheel (- 120))) 1 = 5 / 2 ^ 55"
    unfolding r10 by (simp only: zoomAfter.simps sg t' o1 o2 o3 o4 o5 o6 o7 o8 o9 o10)
  show "zoomAfter (replicate 11 (Wheel (- 120))) 1 = - (450359962737049 / 2 ^ 52)"
    unfolding r11 by (simp only: zoomAfter.simps sg t' o1 o2 o3 o4 o5 o6 o7 o8 o9 o10 o11)
  show "zoomAfter [Wheel (- 120)] 1 = 8106479329266893 / 2 ^ 53"
    by (simp only: zoomAfter.simps sg t' o1)
  show "zoomAfter [Wheel 120] 1 = 2476979795053773 / 2 ^ 51"
    by (simp only: zoomAfter.simps sg t i1)
  show "zoomAfter [Wheel 120] (2476979795053773 / 2 ^ 51) = 1351079888211149 / 2 ^ 50"
    by (simp only: zoomAfter.simps sg t i2)
qed

text \<open>
  On well-formed data whose lights have their uniforms no command throws, and a run of
  commands leaves the zoom factor that its resets and wheel events make.
\<close>

lemma exec_zoom:
  assumes "wf c" "hasUniforms c"
  shows "\<exists>c'. exec L cmd c = Inr c' \<and> wf c' \<and> hasUniforms c' \<and>
           sceneScale c' = zoomAfter [cmd] (sceneScale c)"
proof (cases cmd)
  case Start
  show ?thesis
  proof (cases "isSceneAnimated c")
    case True
    let ?c' = "c\<lparr>alerts := alerts c @ [START_BUTTON_ERROR]\<rparr>"
    have "wf ?c'" using assms(1) wf_cong[of ?c' c] by simp
    then show ?thesis
      using True Start assms(2) by (simp add: handleAnimationStart_def hasUniforms_def)
  next
    case False
    let ?c0 = "c\<lparr>isSceneAnimated := True\<rparr>"
    have "wf ?c0" "isSceneAnimated ?c0" using assms(1) wf_cong[of ?c0 c] by simp_all
    from handleFrame_running[OF this, of L] obtain c' where
      "handleFrame L ?c0 = Inr c'" "wf c'" "sceneScale c' = sceneScale ?c0"
      "lightSourceData c' = lightSourceData ?c0"
      by blast
    then show ?thesis
      using False Start assms(2) by (simp add: handleAnimationStart_def hasUniforms_def)
  qed
next
  case Stop
  let ?a = "c\<lparr>isSceneAnimated := False\<rparr>"
  let ?b = "c\<lparr>alerts := alerts c @ [STOP_BUTTON_ERROR]\<rparr>"
  have "wf ?a" "wf ?b" using assms(1) wf_cong[of ?a c] wf_cong[of ?b c] by simp_all
  then show ?thesis using Stop assms(2) by (simp add: handleAnimationStop_def hasUniforms_def)
next
  case Reset
  from handleReset_effect[OF assms(1), of L] obtain c' where
    "handleReset L c = Inr c'" "wf c'" "sceneScale c' = 1"
    "lightSourceData c' = lightSourceData c"
    by blast
  then show ?thesis using Reset assms(2) by (simp add: hasUniforms_def)
next
  case Tick
  show ?thesis
  proof (cases "pendingFrames c = 0")
    case True
    then show ?thesis using Tick assms by (simp add: tick_def)
  next
    case pending: False
    show ?thesis
    proof (cases "isSceneAnimated c")
      case True
      from tick_running[OF assms(1) True, of L] pending obtain c' where
        "tick L c = Inr c'" "wf c'" "sceneScale c' = sceneScale c"
        "lightSourceData c' = lightSourceData c"
        by auto
      then show ?thesis using Tick assms(2) by (simp add: hasUniforms_def)
    next
      case False
      let ?c' = "c\<lparr>pendingFrames := pendingFrames c - 1\<rparr>"
      have "wf ?c'" using assms(1) wf_cong[of ?c' c] by simp
      then show ?thesis using Tick assms(2) tick_stopped[OF False, of L] by (simp add: hasUniforms_def)
    qed
  qed
next
  case (ToggleShape name)
  from toggleShape_effect[OF assms(1), of L name] obtain c' where
    "handleSceneElementCheckboxChanges L name c = Inr c'" "wf c'"
    "sceneScale c' = sceneScale c" "lightSourceData c' = lightSourceData c"
    by blast
  then show ?thesis using ToggleShape assms(2) by (simp add: hasUniforms_def)
next
  case (ToggleLight i)
  show ?thesis
  proof (cases "i < length (lightSourceData c)")
    case False
    then show ?thesis
      using ToggleLight assms by (simp add: handleLightSourceCheckboxChanges_def)
  next
    case True
    then obtain lu where lu: "lightsUniforms (lightSourceData c ! i) = Some lu"
      using assms(2) by (auto simp: hasUniforms_def list_all_length)
    let ?l = "(lightSourceData c ! i)\<lparr>lightsUniforms :=
                 Some (setProp lu ''enabled'' (xor1 (getProp lu ''enabled'')))\<rparr>"
    from toggleLight_total[OF assms(1) True lu, of L] obtain c' where
      c': "handleLightSourceCheckboxChanges L i c = Inr c'" "wf c'"
        "sceneScale c' = sceneScale c" "lightSourceData c' = (lightSourceData c)[i := ?l]"
      by blast
    have "hasUniforms c'"
      using assms(2) set_update_subset_insert[of "lightSourceData c" i ?l]
      by (auto simp: hasUniforms_def c'(4) list_all_iff)
    then show ?thesis using ToggleLight c' by simp
  qed
next
  case (Wheel d)
  from handleWheel_effect[OF assms(1), of L d] obtain c' where
    "handleWheel L d c = Inr c'" "wf c'"
    "sceneScale c' = jsAdd (sceneScale c) (jsDiv (sgn d) 10)"
    "lightSourceData c' = lightSourceData c"
    by blast
  then show ?thesis using Wheel assms(2) by (simp add: hasUniforms_def)
next
  case (Drag r)
  from handleDrag_effect[OF assms(1), of L r] obtain c' where
    "handleDrag L r c = Inr c'" "wf c'" "sceneScale c' = sceneScale c"
    "lightSourceData c' = lightSourceData c"
    by blast
  then show ?thesis using Drag assms(2) by (simp add: hasUniforms_def)
qed

lemma zoomAfter_Cons: "zoomAfter (cmd # cmds) s = zoomAfter cmds (zoomAfter [cmd] s)"
  by (cases cmd) simp_all

lemma zoomAfter_append: "zoomAfter (xs @ ys) s = zoomAfter ys (zoomAfter xs s)"
proof (induction xs arbitrary: s)
  case Nil
  then show ?case by simp
next
  case (Cons x xs)
  then show ?case using zoomAfter_Cons[of x "xs @ ys" s] zoomAfter_Cons[of x xs s] by simp
qed

lemma execAll_zoom:
  assumes "wf c" "hasUniforms c"
  shows "\<exists>c'. execAll L cmds c = Inr c' \<and> wf c' \<and> hasUniforms c' \<and>
           sceneScale c' = zoomAfter cmds (sceneScale c)"
  using assms
proof (induction cmds arbitrary: c)
  case Nil
  then show ?case by (simp add: execAll_Nil)
next
  case (Cons cmd cmds)
  from exec_zoom[OF Cons.prems, of L cmd] obtain c1 where
    c1: "exec L cmd c = Inr c1" "wf c1" "hasUniforms c1"
      "sceneScale c1 = zoomAfter [cmd] (sceneScale c)"
    by blast
  from Cons.IH[OF c1(2,3)] obtain c' where
    c': "execAll L cmds c1 = Inr c'" "wf c'" "hasUniforms c'"
      "sceneScale c' = zoomAfter cmds (sceneScale c1)"
    by blast
  show ?case using c1 c' zoomAfter_Cons[of cmd cmds "sceneScale c"] by (simp add: execAll_Cons)
qed

lemma hasUniforms_state1: "hasUniforms state1"
  by (simp add: hasUniforms_def state1_data lightSources_def)

text \<open>
  C10, as the code has it: the zoom factor is not clamped. A wheel event replaces the
  factor \<open>s\<close> by the JavaScript sum \<open>s + Math.sign(wheelDelta) / 10\<close>, the quotient and
  the sum each rounded to the nearest number; a reset makes the factor 1 and no other
  command changes it, so that after any run of commands the factor is what the wheel
  events since the last reset have added up to, with their roundings; ten zoom-out events
  after a reset leave \<open>5 / 2^55\<close>, which is positive, and eleven leave a negative factor;
  and a render pass, in the state that a run leaves as in any other, scales the view matrix
  by the factor, whatever its sign, and draws everything on the scaled matrix.
\<close>

theorem zoom_unclamped:
  assumes "wf c" "hasUniforms c"
  shows "(\<exists>c'. handleWheel L d c = Inr c' \<and>
            sceneScale c' = jsAdd (sceneScale c) (jsDiv (sgn d) 10)) \<and>
         (\<exists>c'. execAll L cmds c = Inr c' \<and> wf c' \<and> hasUniforms c' \<and>
            sceneScale c' = zoomAfter cmds (sceneScale c)) \<and>
         (\<exists>c'. execAll L (cmds @ Reset # replicate 10 (Wheel (- 120))) c = Inr c' \<and>
            wf c' \<and> hasUniforms c' \<and>
            sceneScale c' = 5 / 2 ^ 55 \<and> 0 < sceneScale c') \<and>
         (\<exists>c'. execAll L (cmds @ Reset # replicate 11 (Wheel (- 120))) c = Inr c' \<and>
            wf c' \<and> hasUniforms c' \<and>
            sceneScale c' = - (450359962737049 / 2 ^ 52) \<and> sceneScale c' < 0) \<and>
         (\<exists>c'. render L c = Inr c' \<and>
            current c' =
              Some (mat4_scale L (getViewMatrix L (rotator c))
                      [sceneScale c, sceneScale c, sceneScale c]) \<and>
            modelviewsOf (glLog c') =
              modelviewsOf (glLog c) @
                drawnMatrices L c
                  (mat4_scale L (getViewMatrix L (rotator c))
                     [sceneScale c, sceneScale c, sceneScale c]))"
proof (intro conjI)
  show "\<exists>c'. handleWheel L d c = Inr c' \<and>
            sceneScale c' = jsAdd (sceneScale c) (jsDiv (sgn d) 10)"
    using handleWheel_effect[OF assms(1), of L d] by blast
  show "\<exists>c'. execAll L cmds c = Inr c' \<and> wf c' \<and> hasUniforms c' \<and>
            sceneScale c' = zoomAfter cmds (sceneScale c)"
    using execAll_zoom[OF assms, of L cmds] by blast
  show "\<exists>c'. render L c = Inr c' \<and>
            current c' =
              Some (mat4_scale L (getViewMatrix L (rotator c))
                      [sceneScale c, sceneScale c, sceneScale c]) \<and>
            modelviewsOf (glLog c') =
              modelviewsOf (glLog c) @
                drawnMatrices L c
                  (mat4_scale L (getViewMatrix L (rotator c))
                     [sceneScale c, sceneScale c, sceneScale c])"
    using render_wf[OF assms(1), of L] by (auto simp: sceneBase_def)
  have a: "zoomAfter (cmds @ Reset # ws) (sceneScale c) = zoomAfter ws 1" for ws
    by (simp add: zoomAfter_append)
  show "\<exists>c'. execAll L (cmds @ Reset # replicate 10 (Wheel (- 120))) c = Inr c' \<and>
            wf c' \<and> hasUniforms c' \<and>
            sceneScale c' = 5 / 2 ^ 55 \<and> 0 < sceneScale c'"
    using execAll_zoom[OF assms, of L "cmds @ Reset # replicate 10 (Wheel (- 120))"]
    unfolding a zoom_values(1) by auto
  show "\<exists>c'. execAll L (cmds @ Reset # replicate 11 (Wheel (- 120))) c = Inr c' \<and>
            wf c' \<and> hasUniforms c' \<and>
            sceneScale c' = - (450359962737049 / 2 ^ 52) \<and> sceneScale c' < 0"
    using execAll_zoom[OF assms, of L "cmds @ Reset # replicate 11 (Wheel (- 120))"]
    unfolding a zoom_values(2) by auto
qed

theorem zoom_unclamped_witness:
  "wf state1 \<and> hasUniforms state1 \<and> sceneScale state1 = 1 \<and>
   (\<exists>c'. handleWheel symbolic (- 120) state1 = Inr c' \<and>
      sceneScale c' = 8106479329266893 / 2 ^ 53) \<and>
   (\<exists>c'. execAll symbolic
            [Wheel 120, ToggleShape ''Sphere'', Start, Tick, Stop, ToggleLight 0,
             Drag (20, [1, 0, 0]), Wheel 120] state1 = Inr c' \<and>
      sceneScale c' = 1351079888211149 / 2 ^ 50) \<and>
   (\<exists>c'. execAll symbolic
            ([Wheel 120, Wheel 120] @ Reset # replicate 10 (Wheel (- 120))) state1 = Inr c' \<and>
      sceneScale c' = 5 / 2 ^ 55 \<and> 0 < sceneScale c') \<and>
   (\<exists>c'. execAll symbolic
            ([Wheel 120, Wheel 120] @ Reset # replicate 11 (Wheel (- 120))) state1 = Inr c' \<and>
      sceneScale c' = - (450359962737049 / 2 ^ 52) \<and> sceneScale c' < 0) \<and>
   (\<exists>c'. render symbolic (state1\<lparr>sceneScale := - (450359962737049 / 2 ^ 52)\<rparr>) = Inr c' \<and>
      current c' =
        Some (Scaled (ViewMatrix 17 [0, 1, 2])
                [- (450359962737049 / 2 ^ 52), - (450359962737049 / 2 ^ 52),
                 - (450359962737049 / 2 ^ 52)]))"
proof -
  let ?c = "state1\<lparr>sceneScale := - (450359962737049 / 2 ^ 52)\<rparr>"
  have w: "wf ?c" "hasUniforms ?c"
    using wf_state1 wf_cong[of ?c state1] hasUniforms_state1 by (simp_all add: hasUniforms_def)
  let ?run = "[Wheel 120, ToggleShape ''Sphere'', Start, Tick, Stop, ToggleLight 0,
               Drag (20, [1, 0, 0]), Wheel 120]"
  have s1: "sceneScale state1 = 1" by (simp add: state1_data)
  have "zoomAfter ?run 1 = zoomAfter [Wheel 120] (zoomAfter [Wheel 120] 1)"
    by simp
  then have z: "zoomAfter ?run 1 = 1351079888211149 / 2 ^ 50"
    by (simp only: zoom_values(4,5))
  have z': "jsAdd 1 (jsDiv (sgn (- 120)) 10) = 8106479329266893 / 2 ^ 53"
    using zoom_values(3) by (simp only: zoomAfter.simps)
  note a = zoom_unclamped[OF wf_state1 hasUniforms_state1, of symbolic "- 120" ?run]
  note b = zoom_unclamped[OF wf_state1 hasUniforms_state1, of symbolic 0 "[Wheel 120, Wheel 120]"]
  note r = zoom_unclamped[OF w, of symbolic 0 "[]"]
  have 1: "\<exists>c'. handleWheel symbolic (- 120) state1 = Inr c' \<and>
      sceneScale c' = 8106479329266893 / 2 ^ 53"
    using a unfolding s1 z' by blast
  have 2: "\<exists>c'. execAll symbolic ?run state1 = Inr c' \<and>
      sceneScale c' = 1351079888211149 / 2 ^ 50"
    using a unfolding s1 z by blast
  have 3: "\<exists>c'. render symbolic ?c = Inr c' \<and>
      current c' =
        Some (Scaled (ViewMatrix 17 [0, 1, 2])
                [- (450359962737049 / 2 ^ 52), - (450359962737049 / 2 ^ 52),
                 - (450359962737049 / 2 ^ 52)])"
    using r by (auto simp: symbolic_def state1_data)
  show ?thesis
    using wf_state1 hasUniforms_state1 s1 1 2 3 b by blast
qed

text \<open>
  C10, as the specification has it, fails after \<open>init\<close>: from the factor 1, ten zoom-out
  events leave \<open>5 / 2^55\<close> and not \<open>1 + (0 - 10) / 10\<close>, which is 0, and two zoom-in
  events leave \<open>1351079888211149 / 2^50\<close>, which is \<open>1.2000000000000002\<close>, and not
  \<open>1 + (2 - 0) / 10\<close>.
\<close>

theorem zoom_closed_form_counterexample:
  "sceneScale state1 = 1 \<and>
   map_option sceneScale (completed (execAll symbolic (replicate 10 (Wheel (- 120))) state1)) =
     Some (5 / 2 ^ 55) \<and>
   5 / 2 ^ 55 \<noteq> (1 + (0 - 10) / 10 :: real) \<and>
   map_option sceneScale (completed (execAll symbolic [Wheel 120, Wheel 120] state1)) =
     Some (1351079888211149 / 2 ^ 50) \<and>
   1351079888211149 / 2 ^ 50 \<noteq> (1 + (2 - 0) / 10 :: real)"
proof -
  have "zoomAfter [Wheel 120, Wheel 120] 1 = zoomAfter [Wheel 120] (zoomAfter [Wheel 120] 1)"
    by simp
  then have z: "zoomAfter [Wheel 120, Wheel 120] 1 = 1351079888211149 / 2 ^ 50"
    by (simp only: zoom_values(4,5))
  from execAll_zoom[OF wf_state1 hasUniforms_state1, of symbolic "replicate 10 (Wheel (- 120))"]
  have 1: "map_option sceneScale
             (completed (execAll symbolic (replicate 10 (Wheel (- 120))) state1)) =
           Some (5 / 2 ^ 55)"
    unfolding zoom_values(1) state1_data by (auto simp: completed_def)
  from execAll_zoom[OF wf_state1 hasUniforms_state1, of symbolic "[Wheel 120, Wheel 120]"]
  have 2: "map_option sceneScale (completed (execAll symbolic [Wheel 120, Wheel 120] state1)) =
           Some (1351079888211149 / 2 ^ 50)"
    unfolding z state1_data by (auto simp: completed_def)
  show ?thesis using 1 2 by (simp add: state1_data)
qed

subsection \<open>Hidden shape kinds\<close>

text \<open>
  The shape pass draws no shape whose template is hidden: the draw calls of a render pass
  are those of the bodies of the lights, whatever the visibility of their templates,
  followed by those of the visible shapes.
\<close>

lemma render_draws:
  assumes "wf c"
  shows "\<exists>c'. render L c = Inr c' \<and>
           (\<forall>b. drawnFrom b (glLog c') =
              drawnFrom b (glLog c) @
                map (bufferOf (templates c))
                  (List.map_filter bodyOf (lightSourceData c) @
                   map shapeType (filter (visible (templates c))
                     (if DEBUG then debugSceneObjectsData c else sceneObjectsData c))))"
  using render_wf[OF assms, of L] by (auto simp: drawnKinds_def)

text \<open>
  C1 at a concrete input: after \<open>init\<close>, the checkbox of the spheres is unchecked. The
  template of the spheres is hidden, and the render pass that follows still draws from
  its index buffer (27) once, for the body of the sun, before the eight other visible
  shapes and the ring.
\<close>

theorem hidden_sphere_still_drawn:
  "map_option
     (\<lambda>c. (map_option isAnimated (map_of (templates c) ''Sphere''),
           bufferOf (templates c) ''Sphere'',
           drop (length (drawnFrom None (glLog state1))) (drawnFrom None (glLog c))))
     (completed (exec symbolic (ToggleShape ''Sphere'') state1)) =
   Some (Some False, Some 27,
         [Some 27, Some 2, Some 5, Some 8, Some 11, Some 14, Some 17, Some 20, Some 23, Some 31])"
proof -
  from toggleShape_effect[OF wf_state1, of symbolic "''Sphere''"] obtain c' where
    c': "handleSceneElementCheckboxChanges symbolic ''Sphere'' state1 = Inr c'"
      "templates c' = map (\<lambda>(k, model). if k = ''Sphere''
                                        then (k, model\<lparr>isAnimated := \<not> isAnimated model\<rparr>)
                                        else (k, model)) (templates state1)"
      "lightSourceData c' = lightSourceData state1"
      "sceneObjectsData c' = sceneObjectsData state1"
      "\<forall>b. drawnFrom b (glLog c') =
            drawnFrom b (glLog state1) @ map (bufferOf (templates c')) (drawnKinds c')"
    by (auto simp: state1_data)
  have ts: "templates c' =
      map (\<lambda>(k, model). if k = ''Sphere''
                          then (k, model\<lparr>isAnimated := \<not> isAnimated model\<rparr>)
                          else (k, model)) (assembleShapeTemplates 0 somePolyhedra)"
    using c'(2) by (simp add: state1_data)
  have kinds: "map (bufferOf (templates c')) (drawnKinds c') =
      [Some 27, Some 2, Some 5, Some 8, Some 11, Some 14, Some 17, Some 20, Some 23, Some 31]"
    by (simp add: drawnKinds_def DEBUG_def c'(3,4) state1_data ts lightSources_def
        sceneObjects_def somePolyhedra_def triangle_def assembleShapeTemplate_def
        bodyOf_def visible_def bufferOf_def List.map_filter_simps)
  have hidden: "map_option isAnimated (map_of (templates c') ''Sphere'') = Some False"
    "bufferOf (templates c') ''Sphere'' = Some 27"
    by (simp_all add: ts somePolyhedra_def triangle_def assembleShapeTemplate_def bufferOf_def)
  show ?thesis using c'(1,5) kinds hidden by (simp add: completed_def)
qed

subsection \<open>The reset command\<close>

text \<open>
  What \<open>handleReset\<close> does on well-formed data: it completes, stops the animation, sets
  the frame counter to 0 and the zoom factor to 1, makes every template visible, performs
  one render pass and requests no frame. It leaves the lights as they are.
\<close>

lemma handleReset_does:
  assumes "wf c"
  shows "\<exists>c'. handleReset L c = Inr c' \<and>
           \<not> isSceneAnimated c' \<and> frameNumber c' = 0 \<and> sceneScale c' = 1 \<and>
           list_all (\<lambda>(k, model). isAnimated model) (templates c') \<and>
           lightSourceData c' = lightSourceData c \<and>
           pendingFrames c' = pendingFrames c \<and>
           passes (glLog c') = Suc (passes (glLog c))"
  using handleReset_effect[OF assms, of L] by (auto simp: list_all_iff)

text \<open>
  C2 at a concrete input: after \<open>init\<close>, the checkbox of the sun is unchecked, which
  disables the sun, and the scene is reset. The reset leaves the animation stopped, the
  frame counter 0, the zoom factor 1 and every template visible, and leaves the sun
  disabled.
\<close>

theorem reset_leaves_light_disabled:
  "map_option
     (\<lambda>c. (isSceneAnimated c, frameNumber c, sceneScale c,
           list_all (\<lambda>(k, model). isAnimated model) (templates c),
           map (\<lambda>light. map_option (\<lambda>lu. getProp lu ''enabled'') (lightsUniforms light))
             (lightSourceData c)))
     (completed (execAll symbolic [ToggleLight 0, Reset] state1)) =
   Some (False, 0, 1, True, [Some (Num 0), Some (Num 1)])"
proof -
  have i: "0 < length (lightSourceData state1)"
    "lightsUniforms (lightSourceData state1 ! 0) =
       Some [(''enabled'', Num 1), (''position'', Arr [0, 0, 0, 1]), (''color'', Arr WHITE),
             (''attenuation'', Num 0.25)]"
    by (simp_all add: state1_data lightSources_def)
  from toggleLight_total[OF wf_state1 i, of symbolic] obtain c1 where
    c1: "handleLightSourceCheckboxChanges symbolic 0 state1 = Inr c1" "wf c1"
      "lightSourceData c1 =
         (lightSourceData state1)
           [0 := (lightSourceData state1 ! 0)\<lparr>lightsUniforms :=
              Some (setProp [(''enabled'', Num 1), (''position'', Arr [0, 0, 0, 1]),
                             (''color'', Arr WHITE), (''attenuation'', Num 0.25)] ''enabled''
                      (xor1 (getProp [(''enabled'', Num 1), (''position'', Arr [0, 0, 0, 1]),
                             (''color'', Arr WHITE), (''attenuation'', Num 0.25)] ''enabled'')))\<rparr>]"
    by blast
  from handleReset_does[OF c1(2), of symbolic] obtain c2 where
    c2: "handleReset symbolic c1 = Inr c2" "\<not> isSceneAnimated c2" "frameNumber c2 = 0"
      "sceneScale c2 = 1" "list_all (\<lambda>(k, model). isAnimated model) (templates c2)"
      "lightSourceData c2 = lightSourceData c1"
    by blast
  have x: "xor1 (Num 1) = Num 0"
    by (simp add: xor1_def jsTruncate_def)
  have lights: "map (\<lambda>light. map_option (\<lambda>lu. getProp lu ''enabled'') (lightsUniforms light))
             (lightSourceData c2) = [Some (Num 0), Some (Num 1)]"
    by (simp add: c2(6) c1(3) state1_data lightSources_def getProp_def x)
  have run: "execAll symbolic [ToggleLight 0, Reset] state1 = Inr c2"
    using c1(1) c2(1) by (simp add: execAll_Cons execAll_Nil)
  show ?thesis using run c2(2,3,4,5) lights by (simp add: completed_def)
qed

end
